theory Spec2Isabelle
  imports Main
begin

section \<open>Data model\<close>

text \<open>
  The messages of \<^verbatim>\<open>langchain\<close> that the workflow handles. A message's content is a
  string or a list of blocks (the sources test \<^verbatim>\<open>isinstance(msg.content, str)\<close>); its id
  is absent until one has been given to it (\<^verbatim>\<open>HumanMessage(content=...)\<close> sets none).
  Only an \<^verbatim>\<open>AIMessage\<close> carries \<^verbatim>\<open>tool_calls\<close>.
\<close>

datatype content = Text string | Blocks "string list"

record tool_call =
  tc_name :: string
  tc_args :: "(string \<times> string) list"
  tc_id :: string

datatype message =
    HumanMessage content "string option"
  | AIMessage content "tool_call list" "string option"
  | ToolMessage content string "string option"
  | SystemMessage content "string option"

fun msg_content :: "message \<Rightarrow> content" where
  "msg_content (HumanMessage c i) = c"
| "msg_content (AIMessage c tcs i) = c"
| "msg_content (ToolMessage c t i) = c"
| "msg_content (SystemMessage c i) = c"

fun msg_id :: "message \<Rightarrow> string option" where
  "msg_id (HumanMessage c i) = i"
| "msg_id (AIMessage c tcs i) = i"
| "msg_id (ToolMessage c t i) = i"
| "msg_id (SystemMessage c i) = i"

text \<open>\<^verbatim>\<open>isinstance(m, AIMessage) and hasattr(m, 'tool_calls') and m.tool_calls\<close>\<close>

fun is_tool_call_request :: "message \<Rightarrow> bool" where
  "is_tool_call_request (AIMessage c tcs i) = (tcs \<noteq> [])"
| "is_tool_call_request m = False"

fun is_human :: "message \<Rightarrow> bool" where
  "is_human (HumanMessage c i) = True"
| "is_human m = False"

text \<open>\<^verbatim>\<open>models/schemas.py\<close>: the seven required string fields of a profile.\<close>

record UserProfile =
  first_name :: string
  last_name :: string
  national_id :: string
  gender :: string
  date_of_birth :: string
  hmo :: string
  insurance_tier :: string

text \<open>
  \<^verbatim>\<open>WorkflowState\<close> is a \<^verbatim>\<open>TypedDict\<close>: the key \<^verbatim>\<open>user_profile\<close> or \<^verbatim>\<open>phase\<close> may be missing
  (\<open>None\<close>), or present with the value \<^verbatim>\<open>None\<close> (\<open>Some None\<close>) or with a value. The dicts the
  nodes return have the same keys, so both are this record; in a state the message list
  is always there.
\<close>

record WorkflowState =
  messages :: "message list"
  user_profile :: "UserProfile option option"
  phase :: "string option option"

text \<open>\<^verbatim>\<open>state.get(key)\<close>: a missing key reads as \<^verbatim>\<open>None\<close>.\<close>

definition get_user_profile :: "WorkflowState \<Rightarrow> UserProfile option" where
  "get_user_profile s = (case user_profile s of None \<Rightarrow> None | Some v \<Rightarrow> v)"

definition get_phase :: "WorkflowState \<Rightarrow> string option" where
  "get_phase s = (case phase s of None \<Rightarrow> None | Some v \<Rightarrow> v)"

datatype node =
    EntryPoint | CollectorAgent | QaAgent | HandleExtractionTool | HandleSearchTool | END

datatype py_error =
    IndexError | KeyError | TypeError | JSONDecodeError | ValidationError
  | GraphRecursionError

text \<open>
  A decoded JSON document, as \<^verbatim>\<open>json.loads\<close> returns it; an object is the list of its
  items, each key once (a dict).
\<close>

datatype json =
    JNull | JBool bool | JNumber string | JString string
  | JArray "json list" | JObject "(string \<times> json) list"

text \<open>
  What the workflow calls and the sources do not hold: the two prompt files, the language
  model bound to the extraction tool and to the search tool, the two \<^verbatim>\<open>ToolNode\<close>s (each
  returns the tool messages for the pending tool calls of the state), and \<^verbatim>\<open>json.loads\<close>
  (\<open>None\<close> when it raises \<^verbatim>\<open>JSONDecodeError\<close>). Every theorem below holds for all of them.
\<close>

record collaborators =
  info_collection_prompt :: string
  qa_prompt :: string
  collector_llm :: "message list \<Rightarrow> message"
  qa_llm :: "message list \<Rightarrow> message"
  extraction_tool_node :: "WorkflowState \<Rightarrow> message list"
  search_tool_node :: "WorkflowState \<Rightarrow> message list"
  json_loads :: "string \<Rightarrow> json option"

section \<open>The nodes of the workflow (workflow/workflow.py)\<close>

definition entry_point :: "WorkflowState \<Rightarrow> WorkflowState" where
  "entry_point s = \<lparr>messages = [], user_profile = None, phase = None\<rparr>"

definition collector_agent :: "collaborators \<Rightarrow> WorkflowState \<Rightarrow> WorkflowState" where
  "collector_agent c s =
     (let msgs = SystemMessage (Text (info_collection_prompt c)) None # messages s;
          response = collector_llm c msgs
      in \<lparr>messages = [response],
          user_profile = Some (get_user_profile s),
          phase = Some (get_phase s)\<rparr>)"

definition qa_agent :: "collaborators \<Rightarrow> WorkflowState \<Rightarrow> WorkflowState" where
  "qa_agent c s =
     (let msgs = SystemMessage (Text (qa_prompt c)) None # messages s;
          response = qa_llm c msgs
      in \<lparr>messages = [response],
          user_profile = Some (get_user_profile s),
          phase = Some (get_phase s)\<rparr>)"

text \<open>
  \<^verbatim>\<open>UserProfile(**user_profile_data)\<close>: the decoded value must be an object (\<^verbatim>\<open>**\<close> of
  anything else raises \<^verbatim>\<open>TypeError\<close>), and each of the seven fields must be there and be a
  string (pydantic raises \<^verbatim>\<open>ValidationError\<close>); other keys are ignored.
\<close>

definition str_field :: "(string \<times> json) list \<Rightarrow> string \<Rightarrow> string option" where
  "str_field d k = (case map_of d k of Some (JString v) \<Rightarrow> Some v | _ \<Rightarrow> None)"

definition UserProfile_of :: "json \<Rightarrow> py_error + UserProfile" where
  "UserProfile_of j =
     (case j of
        JObject d \<Rightarrow>
          (case (str_field d ''first_name'', str_field d ''last_name'',
                 str_field d ''national_id'', str_field d ''gender'',
                 str_field d ''date_of_birth'', str_field d ''hmo'',
                 str_field d ''insurance_tier'') of
             (Some a, Some b, Some n, Some g, Some dob, Some h, Some t) \<Rightarrow>
               Inr \<lparr>first_name = a, last_name = b, national_id = n, gender = g,
                    date_of_birth = dob, hmo = h, insurance_tier = t\<rparr>
           | _ \<Rightarrow> Inl ValidationError)
      | _ \<Rightarrow> Inl TypeError)"

text \<open>
  The body of the \<^verbatim>\<open>try\<close> in \<^verbatim>\<open>handle_extraction_tool\<close>: \<^verbatim>\<open>tool_messages[0].content\<close>,
  \<^verbatim>\<open>json.loads\<close>, \<^verbatim>\<open>UserProfile(**...)\<close>, with each exception as a value.
\<close>

definition parse_tool_result :: "collaborators \<Rightarrow> message list \<Rightarrow> py_error + UserProfile" where
  "parse_tool_result c tool_messages =
     (case tool_messages of
        [] \<Rightarrow> Inl IndexError
      | m # _ \<Rightarrow>
          (case msg_content m of
             Blocks _ \<Rightarrow> Inl TypeError
           | Text txt \<Rightarrow>
               (case json_loads c txt of
                  None \<Rightarrow> Inl JSONDecodeError
                | Some j \<Rightarrow> UserProfile_of j)))"

text \<open>
  \<^verbatim>\<open>except Exception\<close> turns every failure of the parse into \<^verbatim>\<open>user_profile = None\<close>; the
  returned dict always has \<^verbatim>\<open>"phase": "qa"\<close>. The result is a sum so that an exception
  leaving the handler would be a value \<open>Inl\<close>.
\<close>

definition handle_extraction_tool ::
  "collaborators \<Rightarrow> WorkflowState \<Rightarrow> py_error + WorkflowState" where
  "handle_extraction_tool c s =
     (let tool_messages = extraction_tool_node c s;
          profile = (case parse_tool_result c tool_messages of
                       Inl e \<Rightarrow> None
                     | Inr p \<Rightarrow> Some p)
      in Inr \<lparr>messages = tool_messages,
              user_profile = Some profile,
              phase = Some (Some ''qa'')\<rparr>)"

definition handle_search_tool :: "collaborators \<Rightarrow> WorkflowState \<Rightarrow> WorkflowState" where
  "handle_search_tool c s =
     \<lparr>messages = search_tool_node c s, user_profile = None, phase = None\<rparr>"

section \<open>Routing\<close>

text \<open>\<^verbatim>\<open>phase = state.get("phase") or "collection"\<close>: \<^verbatim>\<open>None\<close> and the empty string are falsy.\<close>

definition route_from_entry :: "WorkflowState \<Rightarrow> node" where
  "route_from_entry s =
     (let ph = (case get_phase s of
                  None \<Rightarrow> ''collection''
                | Some p \<Rightarrow> if p = [] then ''collection'' else p)
      in if ph = ''qa'' then QaAgent else CollectorAgent)"

text \<open>\<^verbatim>\<open>state["messages"][-1]\<close> raises \<^verbatim>\<open>IndexError\<close> on an empty list.\<close>

definition last_message :: "WorkflowState \<Rightarrow> py_error + message" where
  "last_message s = (if messages s = [] then Inl IndexError else Inr (last (messages s)))"

definition route_after_collector :: "WorkflowState \<Rightarrow> py_error + node" where
  "route_after_collector s =
     (case last_message s of
        Inl e \<Rightarrow> Inl e
      | Inr m \<Rightarrow>
          if is_tool_call_request m then Inr HandleExtractionTool
          else if \<not> is_human m then Inr END
          else Inr CollectorAgent)"

definition route_after_qa :: "WorkflowState \<Rightarrow> py_error + node" where
  "route_after_qa s =
     (case last_message s of
        Inl e \<Rightarrow> Inl e
      | Inr m \<Rightarrow>
          if is_tool_call_request m then Inr HandleSearchTool
          else if \<not> is_human m then Inr END
          else Inr QaAgent)"

section \<open>The graph: state merge, edges and the execution loop\<close>

text \<open>
  Modelled from the spec: the reducer \<^verbatim>\<open>add_messages\<close> that \<^verbatim>\<open>WorkflowState\<close> declares for
  \<^verbatim>\<open>messages\<close> belongs to the graph library, which the sources only import. The spec words
  it as an append-only merge keyed by message identity, so that merging the same messages
  again changes nothing. The merge looks each returned message up by its id: if a stored
  message has the id, the returned message is written at that index (the last such index,
  should several stored messages carry the id); otherwise it is appended at the end. A
  message without an id is one the library gives a fresh id when it is merged, so it
  matches no stored message and is appended; the model keeps it as it was returned. The
  keys without a reducer are overwritten when the returned dict has them.
\<close>

definition has_id :: "string \<Rightarrow> message list \<Rightarrow> bool" where
  "has_id i ms = (Some i \<in> set (map msg_id ms))"

fun index_by_id :: "message list \<Rightarrow> string \<Rightarrow> nat option" where
  "index_by_id [] i = None"
| "index_by_id (x # xs) i =
     (case index_by_id xs i of
        Some k \<Rightarrow> Some (Suc k)
      | None \<Rightarrow> if msg_id x = Some i then Some 0 else None)"

definition merge_message :: "message list \<Rightarrow> message \<Rightarrow> message list" where
  "merge_message acc m =
     (case msg_id m of
        None \<Rightarrow> acc @ [m]
      | Some i \<Rightarrow>
          (case index_by_id acc i of
             Some k \<Rightarrow> acc[k := m]
           | None \<Rightarrow> acc @ [m]))"

definition add_messages :: "message list \<Rightarrow> message list \<Rightarrow> message list" where
  "add_messages left right = foldl merge_message left right"

definition apply_update :: "WorkflowState \<Rightarrow> WorkflowState \<Rightarrow> WorkflowState" where
  "apply_update s u =
     \<lparr>messages = add_messages (messages s) (messages u),
      user_profile = (case user_profile u of None \<Rightarrow> user_profile s | Some v \<Rightarrow> Some v),
      phase = (case phase u of None \<Rightarrow> phase s | Some v \<Rightarrow> Some v)\<rparr>"

text \<open>
  The nodes registered by \<^verbatim>\<open>build_workflow\<close>. \<^verbatim>\<open>END\<close> is the graph's terminal marker, not a
  node that runs; it returns the empty dict here.
\<close>

fun run_node :: "collaborators \<Rightarrow> node \<Rightarrow> WorkflowState \<Rightarrow> py_error + WorkflowState" where
  "run_node c EntryPoint s = Inr (entry_point s)"
| "run_node c CollectorAgent s = Inr (collector_agent c s)"
| "run_node c QaAgent s = Inr (qa_agent c s)"
| "run_node c HandleExtractionTool s = handle_extraction_tool c s"
| "run_node c HandleSearchTool s = Inr (handle_search_tool c s)"
| "run_node c END s = Inr \<lparr>messages = [], user_profile = None, phase = None\<rparr>"

text \<open>
  The edges: \<^verbatim>\<open>add_edge\<close> and \<^verbatim>\<open>add_conditional_edges\<close> of \<^verbatim>\<open>build_workflow\<close>. A conditional
  edge looks the name that the routing function returns up in the list of destinations it
  was given; a name that is not in the list raises \<^verbatim>\<open>KeyError\<close>.
\<close>

definition conditional_edge :: "node list \<Rightarrow> py_error + node \<Rightarrow> py_error + node" where
  "conditional_edge ends r =
     (case r of
        Inl e \<Rightarrow> Inl e
      | Inr n \<Rightarrow> if n \<in> set ends then Inr n else Inl KeyError)"

fun next_node :: "node \<Rightarrow> WorkflowState \<Rightarrow> py_error + node" where
  "next_node EntryPoint s =
     conditional_edge [CollectorAgent, QaAgent] (Inr (route_from_entry s))"
| "next_node CollectorAgent s =
     conditional_edge [HandleExtractionTool, END] (route_after_collector s)"
| "next_node HandleExtractionTool s = Inr QaAgent"
| "next_node QaAgent s =
     conditional_edge [HandleSearchTool, END] (route_after_qa s)"
| "next_node HandleSearchTool s = Inr QaAgent"
| "next_node END s = Inr END"

text \<open>
  Modelled from the spec: the execution loop is the graph library's
  (\<^verbatim>\<open>compiled_workflow.stream\<close>); the sources only pass \<^verbatim>\<open>recursion_limit = 50\<close>. As the spec
  has it, the engine applies the transition table from the entry node until a node yields
  the terminal state or the step budget is used up, and then fails with a recursion-limit
  error. Each step runs the node, merges its dict into the state and yields the chunk
  \<open>[(node, dict)]\<close>; the second component of the result is the final state.
\<close>

type_synonym chunk = "(node \<times> WorkflowState) list"

fun run ::
  "collaborators \<Rightarrow> nat \<Rightarrow> node \<Rightarrow> WorkflowState \<Rightarrow> py_error + (chunk list \<times> WorkflowState)"
where
  "run c 0 n s = (if n = END then Inr ([], s) else Inl GraphRecursionError)"
| "run c (Suc k) n s =
     (if n = END then Inr ([], s)
      else case run_node c n s of
        Inl e \<Rightarrow> Inl e
      | Inr u \<Rightarrow>
          (case next_node n (apply_update s u) of
             Inl e \<Rightarrow> Inl e
           | Inr n' \<Rightarrow>
               (case run c k n' (apply_update s u) of
                  Inl e \<Rightarrow> Inl e
                | Inr (chunks, final) \<Rightarrow> Inr ([(n, u)] # chunks, final))))"

definition recursion_limit :: nat where
  "recursion_limit = 50"

definition invoke :: "collaborators \<Rightarrow> WorkflowState \<Rightarrow> py_error + (chunk list \<times> WorkflowState)" where
  "invoke c s = run c recursion_limit EntryPoint s"

definition stream :: "collaborators \<Rightarrow> WorkflowState \<Rightarrow> py_error + chunk list" where
  "stream c s = (case invoke c s of Inl e \<Rightarrow> Inl e | Inr (chunks, final) \<Rightarrow> Inr chunks)"

section \<open>The stateless chat endpoint (app.py)\<close>

record ChatMessage =
  role :: string
  cm_content :: string
  timestamp :: int

record ChatRequest =
  req_message :: string
  req_user_profile :: "UserProfile option"
  req_conversation_history :: "ChatMessage list"
  req_phase :: string
  req_debug :: bool

record ChatResponse =
  resp_message :: string
  resp_user_profile :: "UserProfile option"
  resp_phase :: string
  requires_confirmation :: bool

fun convert_chat_history_to_langchain_messages :: "ChatMessage list \<Rightarrow> message list" where
  "convert_chat_history_to_langchain_messages [] = []"
| "convert_chat_history_to_langchain_messages (msg # rest) =
     (if role msg = ''user''
        then HumanMessage (Text (cm_content msg)) None
               # convert_chat_history_to_langchain_messages rest
      else if role msg = ''assistant''
        then AIMessage (Text (cm_content msg)) [] None
               # convert_chat_history_to_langchain_messages rest
      else convert_chat_history_to_langchain_messages rest)"

text \<open>The last \<^verbatim>\<open>AIMessage\<close> of a list whose content is a string, if there is one.\<close>

fun ai_text :: "message \<Rightarrow> string option" where
  "ai_text (AIMessage (Text t) tcs i) = Some t"
| "ai_text m = None"

fun last_ai_text :: "message list \<Rightarrow> string option" where
  "last_ai_text [] = None"
| "last_ai_text (m # ms) =
     (case last_ai_text ms of Some t \<Rightarrow> Some t | None \<Rightarrow> ai_text m)"

text \<open>
  One round of the loop over \<^verbatim>\<open>final_state.items()\<close>: a value is taken over only when the
  key is there and truthy (a non-empty list, a profile, a non-empty string).
\<close>

fun extract_step ::
  "string \<times> UserProfile option \<times> string \<Rightarrow> node \<times> WorkflowState \<Rightarrow>
   string \<times> UserProfile option \<times> string"
where
  "extract_step (response_message, profile, ph) (node_name, node_update) =
     ((case last_ai_text (messages node_update) of
         Some t \<Rightarrow> t
       | None \<Rightarrow> response_message),
      (case user_profile node_update of
         Some (Some p) \<Rightarrow> Some p
       | _ \<Rightarrow> profile),
      (case phase node_update of
         Some (Some p) \<Rightarrow> if p \<noteq> [] then p else ph
       | _ \<Rightarrow> ph))"

definition extract_response_from_workflow_result ::
  "chunk \<Rightarrow> string \<times> UserProfile option \<times> string" where
  "extract_response_from_workflow_result final_state =
     foldl extract_step ([], None, ''collection'') final_state"

text \<open>
  \<^verbatim>\<open>not request.message.strip()\<close>: the message is empty or all whitespace. A string is its
  UTF-8 bytes here, so the whitespace of \<^verbatim>\<open>str.strip\<close> is the ASCII characters 9 to 13, 28 to
  32, and the encodings of U+0085, U+00A0 (two bytes) and of U+1680, U+2000 to U+200A,
  U+2028, U+2029, U+202F, U+205F, U+3000 (three bytes).
\<close>

definition is_space :: "char \<Rightarrow> bool" where
  "is_space ch = (of_char ch \<in> {9, 10, 11, 12, 13, 28, 29, 30, 31, 32 :: nat})"

definition is_space2 :: "char \<Rightarrow> char \<Rightarrow> bool" where
  "is_space2 a b = ((of_char a :: nat) = 194 \<and> of_char b \<in> {133, 160 :: nat})"

definition is_space3 :: "char \<Rightarrow> char \<Rightarrow> char \<Rightarrow> bool" where
  "is_space3 a b ch =
     (((of_char a :: nat) = 225 \<and> (of_char b :: nat) = 154 \<and> (of_char ch :: nat) = 128)
      \<or> ((of_char a :: nat) = 226 \<and> (of_char b :: nat) = 128
          \<and> ((128 :: nat) \<le> of_char ch \<and> (of_char ch :: nat) \<le> 138
              \<or> of_char ch \<in> {168, 169, 175 :: nat}))
      \<or> ((of_char a :: nat) = 226 \<and> (of_char b :: nat) = 129 \<and> (of_char ch :: nat) = 159)
      \<or> ((of_char a :: nat) = 227 \<and> (of_char b :: nat) = 128 \<and> (of_char ch :: nat) = 128))"

fun is_blank :: "string \<Rightarrow> bool" where
  "is_blank [] = True"
| "is_blank [a] = is_space a"
| "is_blank [a, b] = (if is_space a then is_blank [b] else is_space2 a b)"
| "is_blank (a # b # ch # rest) =
     (if is_space a then is_blank (b # ch # rest)
      else if is_space2 a b then is_blank (ch # rest)
      else is_space3 a b ch \<and> is_blank rest)"

datatype chat_failure = EmptyMessage | WorkflowError py_error | NoResponse

datatype http_error = HTTPException nat string

text \<open>The \<^verbatim>\<open>initial_state\<close> that \<^verbatim>\<open>chat\<close> builds from the request.\<close>

definition chat_initial_state :: "ChatRequest \<Rightarrow> WorkflowState" where
  "chat_initial_state request =
     (let langchain_messages =
            convert_chat_history_to_langchain_messages (req_conversation_history request)
              @ [HumanMessage (Text (req_message request)) None]
      in \<lparr>messages = langchain_messages,
          user_profile = Some (req_user_profile request),
          phase = Some (Some (req_phase request))\<rparr>)"

text \<open>
  The body of the \<^verbatim>\<open>try\<close> of \<^verbatim>\<open>chat\<close>. The compiled graph's \<^verbatim>\<open>stream\<close> and the fixed apology
  text are arguments. \<^verbatim>\<open>final_state\<close> is the last chunk; none, or an empty one, is falsy.
\<close>

definition chat_body ::
  "(WorkflowState \<Rightarrow> py_error + chunk list) \<Rightarrow> string \<Rightarrow> ChatRequest \<Rightarrow>
   chat_failure + ChatResponse" where
  "chat_body stream_fn apology request =
     (if is_blank (req_message request) then Inl EmptyMessage
      else
        case stream_fn (chat_initial_state request) of
             Inl e \<Rightarrow> Inl (WorkflowError e)
           | Inr chunks \<Rightarrow>
               if chunks = [] \<or> last chunks = [] then Inl NoResponse
               else
                 (case extract_response_from_workflow_result (last chunks) of
                    (response_message, updated_user_profile, workflow_phase) \<Rightarrow>
                      Inr \<lparr>resp_message =
                             (if response_message = [] then apology else response_message),
                           resp_user_profile = updated_user_profile,
                           resp_phase = workflow_phase,
                           requires_confirmation =
                             (updated_user_profile \<noteq> None \<and> workflow_phase = ''qa''
                              \<and> req_user_profile request = None)\<rparr>))"

text \<open>
  Every exception raised in the body, the \<^verbatim>\<open>HTTPException\<close>s included, reaches
  \<^verbatim>\<open>except Exception\<close> and leaves as status 500.
\<close>

definition chat ::
  "(WorkflowState \<Rightarrow> py_error + chunk list) \<Rightarrow> string \<Rightarrow> ChatRequest \<Rightarrow>
   http_error + ChatResponse" where
  "chat stream_fn apology request =
     (case chat_body stream_fn apology request of
        Inl e \<Rightarrow> Inl (HTTPException 500 ''Internal server error'')
      | Inr response \<Rightarrow> Inr response)"

section \<open>The session store (services/session-store)\<close>

text \<open>
  Times are microseconds (the resolution of \<^verbatim>\<open>datetime\<close>); the clock \<^verbatim>\<open>datetime.now()\<close> is an
  argument. The lock is not modelled: each operation runs alone.
\<close>

record ChatSession =
  session_id :: string
  conversation_history :: "ChatMessage list"
  session_user_profile :: "UserProfile option"
  current_phase :: string
  created_at :: int
  last_activity :: int

record SessionStore =
  sessions :: "string \<rightharpoonup> ChatSession"
  session_timeout :: int

definition timedelta_minutes :: "int \<Rightarrow> int" where
  "timedelta_minutes m = m * 60 * 1000000"

definition SessionStore_init :: "int \<Rightarrow> SessionStore" where
  "SessionStore_init session_timeout_minutes =
     \<lparr>sessions = Map.empty, session_timeout = timedelta_minutes session_timeout_minutes\<rparr>"

text \<open>\<^verbatim>\<open>session_store = SessionStore(session_timeout_minutes=60)\<close>, before any session.\<close>

definition session_store :: SessionStore where
  "session_store = SessionStore_init 60"

definition get_session ::
  "SessionStore \<Rightarrow> int \<Rightarrow> string \<Rightarrow> ChatSession option \<times> SessionStore" where
  "get_session store now sid =
     (case sessions store sid of
        None \<Rightarrow> (None, store)
      | Some session \<Rightarrow>
          if now - last_activity session > session_timeout store
            then (None, store\<lparr>sessions := (sessions store)(sid := None)\<rparr>)
          else (Some session, store))"

text \<open>
  \<^verbatim>\<open>ChatSession()\<close> with its defaults, and \<^verbatim>\<open>create_session\<close>; the fresh \<^verbatim>\<open>uuid4\<close> and the clock are
  arguments.
\<close>

definition ChatSession_new :: "string \<Rightarrow> int \<Rightarrow> ChatSession" where
  "ChatSession_new uuid now =
     \<lparr>session_id = uuid, conversation_history = [], session_user_profile = None,
      current_phase = ''collection'', created_at = now, last_activity = now\<rparr>"

definition create_session :: "SessionStore \<Rightarrow> string \<Rightarrow> int \<Rightarrow> ChatSession \<times> SessionStore" where
  "create_session store uuid now =
     (let session = ChatSession_new uuid now
      in (session, store\<lparr>sessions := (sessions store)(session_id session \<mapsto> session)\<rparr>))"

section \<open>The stateful chat endpoint (app.py)\<close>

text \<open>
  The operations of the store that \<^verbatim>\<open>stateful_chat\<close> uses, and the endpoint itself. The local
  variable \<^verbatim>\<open>session\<close> is the object held by the store, so after each operation its fields
  are read from the store again (\<open>live\<close>); its \<^verbatim>\<open>session_id\<close> never changes and is passed
  along. The clock is one argument for the whole call; the welcome text, the apology text
  and the id of a new session are arguments as well. \<^verbatim>\<open>get_langchain_messages\<close> runs the
  same loop as \<^verbatim>\<open>convert_chat_history_to_langchain_messages\<close>. \<open>commit_turn\<close> is the part of
  \<^verbatim>\<open>stateful_chat\<close> after the result was extracted, \<open>stateful_turn\<close> the part after the session
  was found or created.
\<close>

record StatefulChatRequest =
  sreq_message :: string
  sreq_session_id :: "string option"
  sreq_debug :: bool

record StatefulChatResponse =
  sresp_message :: string
  sresp_session_id :: string
  sresp_user_profile :: "UserProfile option"
  sresp_phase :: string
  sresp_requires_confirmation :: bool

definition add_message_to_session ::
  "SessionStore \<Rightarrow> int \<Rightarrow> string \<Rightarrow> ChatMessage \<Rightarrow> bool \<times> SessionStore" where
  "add_message_to_session store now sid message =
     (case sessions store sid of
        None \<Rightarrow> (False, store)
      | Some session \<Rightarrow>
          (True, store\<lparr>sessions := (sessions store)(sid \<mapsto>
             session\<lparr>conversation_history := conversation_history session @ [message],
                     last_activity := now\<rparr>)\<rparr>))"

definition update_session_profile ::
  "SessionStore \<Rightarrow> int \<Rightarrow> string \<Rightarrow> UserProfile \<Rightarrow> bool \<times> SessionStore" where
  "update_session_profile store now sid profile =
     (case sessions store sid of
        None \<Rightarrow> (False, store)
      | Some session \<Rightarrow>
          (True, store\<lparr>sessions := (sessions store)(sid \<mapsto>
             session\<lparr>session_user_profile := Some profile, last_activity := now\<rparr>)\<rparr>))"

definition update_session_phase ::
  "SessionStore \<Rightarrow> int \<Rightarrow> string \<Rightarrow> string \<Rightarrow> bool \<times> SessionStore" where
  "update_session_phase store now sid ph =
     (case sessions store sid of
        None \<Rightarrow> (False, store)
      | Some session \<Rightarrow>
          (True, store\<lparr>sessions := (sessions store)(sid \<mapsto>
             session\<lparr>current_phase := ph, last_activity := now\<rparr>)\<rparr>))"

definition get_langchain_messages ::
  "SessionStore \<Rightarrow> int \<Rightarrow> string \<Rightarrow> message list \<times> SessionStore" where
  "get_langchain_messages store now sid =
     (case get_session store now sid of
        (None, store') \<Rightarrow> ([], store')
      | (Some session, store') \<Rightarrow>
          (convert_chat_history_to_langchain_messages (conversation_history session), store'))"

definition live :: "SessionStore \<Rightarrow> string \<Rightarrow> ChatSession \<Rightarrow> ChatSession" where
  "live store sid session = (case sessions store sid of None \<Rightarrow> session | Some x \<Rightarrow> x)"

datatype stateful_failure =
    EmptyStatefulMessage | SessionNotFound | StatefulWorkflowError py_error | NoStatefulResponse

definition commit_turn ::
  "string \<Rightarrow> int \<Rightarrow> SessionStore \<Rightarrow> string \<Rightarrow> ChatSession \<Rightarrow>
   string \<times> UserProfile option \<times> string \<Rightarrow> StatefulChatResponse \<times> SessionStore" where
  "commit_turn apology now store2 sid session1 extracted =
     (case extracted of
        (response_message, updated_user_profile, workflow_phase) \<Rightarrow>
          let reply = (if response_message = [] then apology else response_message);
              store3 =
                (case updated_user_profile of
                   None \<Rightarrow> store2
                 | Some p \<Rightarrow>
                     if Some p \<noteq> session_user_profile session1
                     then snd (update_session_profile store2 now sid p)
                     else store2);
              session3 = live store3 sid session1;
              store4 =
                (if workflow_phase \<noteq> [] \<and> workflow_phase \<noteq> current_phase session3
                 then snd (update_session_phase store3 now sid workflow_phase)
                 else store3);
              session4 = live store4 sid session3;
              store5 = snd (add_message_to_session store4 now sid
                              \<lparr>role = ''assistant'', cm_content = reply, timestamp = now\<rparr>);
              session5 = live store5 sid session4;
              (updated_session, store6) = get_session store5 now sid
          in (\<lparr>sresp_message = reply,
               sresp_session_id = sid,
               sresp_user_profile =
                 (case updated_session of
                    Some us \<Rightarrow> session_user_profile us
                  | None \<Rightarrow> updated_user_profile),
               sresp_phase =
                 (case updated_session of
                    Some us \<Rightarrow> current_phase us
                  | None \<Rightarrow> workflow_phase),
               sresp_requires_confirmation =
                 (updated_user_profile \<noteq> None \<and> workflow_phase = ''qa''
                  \<and> session_user_profile session5 = None)\<rparr>,
              store6))"

definition stateful_initial_state :: "message list \<Rightarrow> ChatSession \<Rightarrow> WorkflowState" where
  "stateful_initial_state langchain_messages session =
     (let initial_phase =
            (if current_phase session \<noteq> [] then current_phase session else ''collection'')
      in \<lparr>messages = langchain_messages,
          user_profile = Some (session_user_profile session),
          phase = Some (Some initial_phase)\<rparr>)"

text \<open>The \<^verbatim>\<open>initial_state\<close> of a stateful turn, after the user message was stored.\<close>

definition stateful_turn_state ::
  "int \<Rightarrow> SessionStore \<Rightarrow> ChatSession \<Rightarrow> string \<Rightarrow> WorkflowState" where
  "stateful_turn_state now store0 session0 txt =
     (let sid = session_id session0;
          store1 = snd (add_message_to_session store0 now sid
                          \<lparr>role = ''user'', cm_content = txt, timestamp = now\<rparr>);
          session1 = live store1 sid session0;
          (langchain_messages, store2) = get_langchain_messages store1 now sid
      in stateful_initial_state langchain_messages session1)"

definition stateful_turn ::
  "(WorkflowState \<Rightarrow> py_error + chunk list) \<Rightarrow> string \<Rightarrow> int \<Rightarrow> SessionStore \<Rightarrow>
   ChatSession \<Rightarrow> string \<Rightarrow> (stateful_failure + StatefulChatResponse) \<times> SessionStore" where
  "stateful_turn stream_fn apology now store0 session0 txt =
     (let sid = session_id session0;
          store1 = snd (add_message_to_session store0 now sid
                          \<lparr>role = ''user'', cm_content = txt, timestamp = now\<rparr>);
          session1 = live store1 sid session0;
          (langchain_messages, store2) = get_langchain_messages store1 now sid
      in case stream_fn (stateful_turn_state now store0 session0 txt) of
           Inl e \<Rightarrow> (Inl (StatefulWorkflowError e), store2)
         | Inr chunks \<Rightarrow>
             if chunks = [] \<or> last chunks = [] then (Inl NoStatefulResponse, store2)
             else
               (case commit_turn apology now store2 sid session1
                       (extract_response_from_workflow_result (last chunks)) of
                  (response, store6) \<Rightarrow> (Inr response, store6)))"

definition stateful_chat_body ::
  "(WorkflowState \<Rightarrow> py_error + chunk list) \<Rightarrow> string \<Rightarrow> string \<Rightarrow> string \<Rightarrow> int \<Rightarrow>
   SessionStore \<Rightarrow> StatefulChatRequest \<Rightarrow>
   (stateful_failure + StatefulChatResponse) \<times> SessionStore" where
  "stateful_chat_body stream_fn apology welcome uuid now store request =
     (if is_blank (sreq_message request) then (Inl EmptyStatefulMessage, store)
      else
        case (case sreq_session_id request of
                None \<Rightarrow> None
              | Some sid \<Rightarrow> if sid = [] then None else Some sid) of
          Some sid \<Rightarrow>
            (case get_session store now sid of
               (None, store') \<Rightarrow> (Inl SessionNotFound, store')
             | (Some session, store') \<Rightarrow>
                 stateful_turn stream_fn apology now store' session (sreq_message request))
        | None \<Rightarrow>
            (case create_session store uuid now of
               (session, store') \<Rightarrow>
                 let store'' = snd (add_message_to_session store' now (session_id session)
                                      \<lparr>role = ''assistant'', cm_content = welcome,
                                       timestamp = now\<rparr>)
                 in stateful_turn stream_fn apology now store''
                      (live store'' (session_id session) session) (sreq_message request)))"

definition stateful_chat ::
  "(WorkflowState \<Rightarrow> py_error + chunk list) \<Rightarrow> string \<Rightarrow> string \<Rightarrow> string \<Rightarrow> int \<Rightarrow>
   SessionStore \<Rightarrow> StatefulChatRequest \<Rightarrow>
   (http_error + StatefulChatResponse) \<times> SessionStore" where
  "stateful_chat stream_fn apology welcome uuid now store request =
     (case stateful_chat_body stream_fn apology welcome uuid now store request of
        (Inl e, store') \<Rightarrow> (Inl (HTTPException 500 ''Internal server error''), store')
      | (Inr response, store') \<Rightarrow> (Inr response, store'))"

section \<open>Predicates on runs and returned messages\<close>

text \<open>
  \<open>fresh_for l r\<close>: each message of \<open>r\<close>, in turn, has no id yet or an id that is not in the
  list so far.
\<close>

fun fresh_for :: "message list \<Rightarrow> message list \<Rightarrow> bool" where
  "fresh_for l [] = True"
| "fresh_for l (m # r) =
     ((case msg_id m of None \<Rightarrow> True | Some i \<Rightarrow> \<not> has_id i l) \<and> fresh_for (l @ [m]) r)"

text \<open>
  \<open>path c n s chunks final\<close>: applying the transition table from node \<open>n\<close> in state \<open>s\<close>, with
  no budget, reaches the terminal state in the state \<open>final\<close>, and \<open>chunks\<close> are the steps
  taken.
\<close>

inductive path ::
  "collaborators \<Rightarrow> node \<Rightarrow> WorkflowState \<Rightarrow> chunk list \<Rightarrow> WorkflowState \<Rightarrow> bool"
  for c :: collaborators
where
  path_END: "path c END s [] s"
| path_step:
    "n \<noteq> END \<Longrightarrow> run_node c n s = Inr u \<Longrightarrow> next_node n (apply_update s u) = Inr n' \<Longrightarrow>
     path c n' (apply_update s u) chunks final \<Longrightarrow>
     path c n s ([(n, u)] # chunks) final"

text \<open>
  \<open>new_messages c\<close>: whatever the models and the tool nodes return is new to the state it
  is merged into. \<open>always_calls_tools c\<close>: moreover both models answer every call with a tool
  call. \<open>calls_tools_while c limit\<close>: the returned messages are new, the tool nodes return no
  assistant message, and both models answer with a tool call as long as the history they
  are given holds fewer than \<open>limit\<close> assistant messages. \<open>chunk_messages\<close> lists the messages
  of the chunks of a run in order, and \<open>runs_of n\<close> counts the steps of a run that ran the
  node \<open>n\<close>.
\<close>

definition new_messages :: "collaborators \<Rightarrow> bool" where
  "new_messages c =
     (\<forall>s. fresh_for (messages s)
            [collector_llm c (SystemMessage (Text (info_collection_prompt c)) None # messages s)]
        \<and> fresh_for (messages s)
            [qa_llm c (SystemMessage (Text (qa_prompt c)) None # messages s)]
        \<and> fresh_for (messages s) (extraction_tool_node c s)
        \<and> fresh_for (messages s) (search_tool_node c s))"

definition always_calls_tools :: "collaborators \<Rightarrow> bool" where
  "always_calls_tools c =
     (new_messages c
      \<and> (\<forall>msgs. is_tool_call_request (collector_llm c msgs)
              \<and> is_tool_call_request (qa_llm c msgs)))"

fun is_ai :: "message \<Rightarrow> bool" where
  "is_ai (AIMessage txt tcs i) = True"
| "is_ai m = False"

definition ai_count :: "message list \<Rightarrow> nat" where
  "ai_count msgs = length (filter is_ai msgs)"

definition calls_tools_while :: "collaborators \<Rightarrow> nat \<Rightarrow> bool" where
  "calls_tools_while c limit =
     (new_messages c
      \<and> (\<forall>s. ai_count (extraction_tool_node c s) = 0 \<and> ai_count (search_tool_node c s) = 0)
      \<and> (\<forall>msgs. ai_count msgs < limit \<longrightarrow>
              is_tool_call_request (collector_llm c msgs)
              \<and> is_tool_call_request (qa_llm c msgs)))"

definition chunk_messages :: "chunk list \<Rightarrow> message list" where
  "chunk_messages chunks = concat (map (\<lambda>ch. concat (map (\<lambda>(n, u). messages u) ch)) chunks)"

definition runs_of :: "node \<Rightarrow> chunk list \<Rightarrow> nat" where
  "runs_of n chunks = length (filter (\<lambda>ch. n \<in> set (map fst ch)) chunks)"

text \<open>The session stored under an id, if there is one, is in the phase \<open>p\<close>.\<close>

definition phase_at :: "SessionStore \<Rightarrow> string \<Rightarrow> string \<Rightarrow> bool" where
  "phase_at store sid p = (\<forall>x. sessions store sid = Some x \<longrightarrow> current_phase x = p)"

section \<open>Concrete inputs\<close>

definition search_call :: tool_call where
  "search_call =
     \<lparr>tc_name = ''search_info'', tc_args = [(''query'', ''dental'')], tc_id = ''call_1''\<rparr>"

definition extract_call :: tool_call where
  "extract_call =
     \<lparr>tc_name = ''extract_user_info'', tc_args = [(''first_name'', ''Dana'')],
      tc_id = ''call_0''\<rparr>"

definition dana :: UserProfile where
  "dana = \<lparr>first_name = ''Dana'', last_name = ''Cohen'', national_id = ''123456789'',
            gender = ''female'', date_of_birth = ''01/02/1990'', hmo = ''Maccabi'',
            insurance_tier = ''gold''\<rparr>"

text \<open>A tool result with five of the seven fields.\<close>

definition five_fields :: json where
  "five_fields =
     JObject [(''first_name'', JString ''Dana''), (''last_name'', JString ''Cohen''),
       (''national_id'', JString ''123456789''), (''gender'', JString ''female''),
       (''date_of_birth'', JString ''01/02/1990'')]"

text \<open>
  A stub: both models answer every call with a tool call and no text, the extraction tool
  returns the five fields, the search tool finds nothing.
\<close>

definition stub :: collaborators where
  "stub =
     \<lparr>info_collection_prompt = ''collect'',
      qa_prompt = ''answer'',
      collector_llm = (\<lambda>msgs. AIMessage (Text []) [extract_call] None),
      qa_llm = (\<lambda>msgs. AIMessage (Text []) [search_call] None),
      extraction_tool_node = (\<lambda>s. [ToolMessage (Text ''partial'') ''call_0'' None]),
      search_tool_node =
        (\<lambda>s. [ToolMessage (Text ''no relevant information found'') ''call_1'' None]),
      json_loads = (\<lambda>t. if t = ''partial'' then Some five_fields else None)\<rparr>"

definition greeting_state :: WorkflowState where
  "greeting_state =
     \<lparr>messages = [HumanMessage (Text ''Hi, I am Dana Cohen'') None],
      user_profile = None, phase = None\<rparr>"

definition asking_state :: WorkflowState where
  "asking_state =
     \<lparr>messages = [HumanMessage (Text ''What does my plan cover for dental?'') None,
                   AIMessage (Text ''Let me look that up.'') [search_call] None],
      user_profile = Some (Some dana), phase = Some (Some ''qa'')\<rparr>"

definition tool_result_state :: WorkflowState where
  "tool_result_state =
     \<lparr>messages = [HumanMessage (Text ''What does my plan cover for dental?'') None,
                   AIMessage (Text []) [search_call] None,
                   ToolMessage (Text ''no relevant information found'') ''call_1'' None],
      user_profile = Some (Some dana), phase = Some (Some ''qa'')\<rparr>"

definition old_session :: ChatSession where
  "old_session =
     \<lparr>session_id = ''s1'', conversation_history = [], session_user_profile = None,
      current_phase = ''collection'', created_at = 0, last_activity = 0\<rparr>"

definition one_session_store :: SessionStore where
  "one_session_store = session_store\<lparr>sessions := [''s1'' \<mapsto> old_session]\<rparr>"

definition first_request :: ChatRequest where
  "first_request =
     \<lparr>req_message = ''Hi, I am Dana Cohen'', req_user_profile = None,
      req_conversation_history = [], req_phase = ''collection'', req_debug = False\<rparr>"

text \<open>
  A second stub: the extraction tool returns all seven fields, and the responder searches
  once and then answers in text.
\<close>

definition seven_fields :: json where
  "seven_fields =
     JObject [(''first_name'', JString ''Dana''), (''last_name'', JString ''Cohen''),
       (''national_id'', JString ''123456789''), (''gender'', JString ''female''),
       (''date_of_birth'', JString ''01/02/1990''), (''hmo'', JString ''Maccabi''),
       (''insurance_tier'', JString ''gold'')]"

definition answering_stub :: collaborators where
  "answering_stub =
     \<lparr>info_collection_prompt = ''collect'',
      qa_prompt = ''answer'',
      collector_llm = (\<lambda>msgs. AIMessage (Text []) [extract_call] None),
      qa_llm = (\<lambda>msgs. case last msgs of
                  ToolMessage t call i \<Rightarrow> AIMessage (Text ''Here is what I found.'') [] None
                | HumanMessage t i \<Rightarrow> AIMessage (Text []) [search_call] None
                | _ \<Rightarrow> AIMessage (Text ''How can I help?'') [] None),
      extraction_tool_node = (\<lambda>s. [ToolMessage (Text ''full'') ''call_0'' None]),
      search_tool_node =
        (\<lambda>s. [ToolMessage (Text ''Dental: two visits a year'') ''call_1'' None]),
      json_loads = (\<lambda>t. if t = ''full'' then Some seven_fields
                         else if t = ''partial'' then Some five_fields else None)\<rparr>"

definition question_state :: WorkflowState where
  "question_state =
     \<lparr>messages = [HumanMessage (Text ''What does my plan cover for dental?'') None],
      user_profile = Some (Some dana), phase = Some (Some ''qa'')\<rparr>"


text \<open>A stored session in phase \<^verbatim>\<open>"qa"\<close> and a request for it.\<close>

definition qa_session :: ChatSession where
  "qa_session =
     \<lparr>session_id = ''s1'', conversation_history = [], session_user_profile = Some dana,
      current_phase = ''qa'', created_at = 0, last_activity = 0\<rparr>"

definition qa_store :: SessionStore where
  "qa_store = session_store\<lparr>sessions := [''s1'' \<mapsto> qa_session]\<rparr>"

definition dental_request :: StatefulChatRequest where
  "dental_request =
     \<lparr>sreq_message = ''What does my plan cover for dental?'', sreq_session_id = Some ''s1'',
      sreq_debug = False\<rparr>"

text \<open>
  A third stub: both models answer with a tool call and no text until the history holds
  51 assistant messages, and in text from then on.
\<close>

definition counting_stub :: collaborators where
  "counting_stub =
     \<lparr>info_collection_prompt = ''collect'',
      qa_prompt = ''answer'',
      collector_llm = (\<lambda>msgs. if ai_count msgs < 51 then AIMessage (Text []) [extract_call] None
                             else AIMessage (Text ''Tell me more.'') [] None),
      qa_llm = (\<lambda>msgs. if ai_count msgs < 51 then AIMessage (Text []) [search_call] None
                      else AIMessage (Text ''Here is what I found.'') [] None),
      extraction_tool_node = (\<lambda>s. [ToolMessage (Text ''partial'') ''call_0'' None]),
      search_tool_node =
        (\<lambda>s. [ToolMessage (Text ''no relevant information found'') ''call_1'' None]),
      json_loads = (\<lambda>t. if t = ''partial'' then Some five_fields else None)\<rparr>"


definition collection_state :: WorkflowState where
  "collection_state =
     \<lparr>messages = [HumanMessage (Text ''Hi, I am Dana'') (Some ''m1'')],
      user_profile = Some None, phase = Some (Some ''collection'')\<rparr>"


text \<open>A stored session in phase \<^verbatim>\<open>"collection"\<close> and a request for it.\<close>

definition new_session :: ChatSession where
  "new_session =
     \<lparr>session_id = ''s3'', conversation_history = [], session_user_profile = None,
      current_phase = ''collection'', created_at = 0, last_activity = 0\<rparr>"

definition new_store :: SessionStore where
  "new_store = session_store\<lparr>sessions := [''s3'' \<mapsto> new_session]\<rparr>"

definition hello_request :: StatefulChatRequest where
  "hello_request =
     \<lparr>sreq_message = ''Hi, I am Dana Cohen'', sreq_session_id = Some ''s3'',
      sreq_debug = False\<rparr>"

section \<open>Routing after an agent\<close>

lemma last_message_nonempty:
  "messages s \<noteq> [] \<Longrightarrow> last_message s = Inr (last (messages s))"
  by (simp add: last_message_def)

text \<open>
  C3. If the most recent message is an assistant message with at least one tool call,
  the route after the collector is the extraction handler and the route after the
  responder is the search handler, never the terminal state, whatever content the message
  carries besides.
\<close>

theorem tool_call_routes_to_handler:
  assumes "messages s \<noteq> []"
    and "last (messages s) = AIMessage txt tcs i"
    and "tcs \<noteq> []"
  shows "route_after_collector s = Inr HandleExtractionTool
       \<and> route_after_qa s = Inr HandleSearchTool
       \<and> next_node CollectorAgent s = Inr HandleExtractionTool
       \<and> next_node QaAgent s = Inr HandleSearchTool
       \<and> next_node CollectorAgent s \<noteq> Inr END
       \<and> next_node QaAgent s \<noteq> Inr END"
  using assms
  by (simp add: route_after_collector_def route_after_qa_def last_message_nonempty
      conditional_edge_def)

theorem tool_call_routes_to_handler_witness:
  "messages asking_state \<noteq> []
   \<and> last (messages asking_state) = AIMessage (Text ''Let me look that up.'') [search_call] None
   \<and> [search_call] \<noteq> []
   \<and> route_after_collector asking_state = Inr HandleExtractionTool
   \<and> route_after_qa asking_state = Inr HandleSearchTool"
proof -
  have a: "messages asking_state \<noteq> []" by (simp add: asking_state_def)
  have b: "last (messages asking_state)
      = AIMessage (Text ''Let me look that up.'') [search_call] None"
    by (simp add: asking_state_def)
  have c: "[search_call] \<noteq> []" by simp
  from tool_call_routes_to_handler [OF a b c] a b c show ?thesis by blast
qed

text \<open>
  C10. If the most recent message is neither a human message nor an assistant message
  with tool calls (a tool message, for one), both routing functions return the terminal
  state; each returns its own agent exactly when the most recent message is a human one.
\<close>

theorem route_terminal_unless_human_or_tool_call:
  assumes "messages s \<noteq> []"
  shows "(\<not> is_human (last (messages s)) \<and> \<not> is_tool_call_request (last (messages s))
            \<longrightarrow> route_after_collector s = Inr END \<and> route_after_qa s = Inr END)
       \<and> (last (messages s) = ToolMessage txt call i
            \<longrightarrow> route_after_collector s = Inr END \<and> route_after_qa s = Inr END)
       \<and> (route_after_collector s = Inr CollectorAgent \<longleftrightarrow> is_human (last (messages s)))
       \<and> (route_after_qa s = Inr QaAgent \<longleftrightarrow> is_human (last (messages s)))"
  using assms
  by (cases "last (messages s)")
     (auto simp: route_after_collector_def route_after_qa_def last_message_nonempty)

theorem route_terminal_unless_human_or_tool_call_witness:
  "messages tool_result_state \<noteq> []
   \<and> last (messages tool_result_state)
       = ToolMessage (Text ''no relevant information found'') ''call_1'' None
   \<and> route_after_collector tool_result_state = Inr END
   \<and> route_after_qa tool_result_state = Inr END
   \<and> messages greeting_state \<noteq> []
   \<and> is_human (last (messages greeting_state))
   \<and> route_after_collector greeting_state = Inr CollectorAgent
   \<and> route_after_qa greeting_state = Inr QaAgent"
proof -
  have a: "messages tool_result_state \<noteq> []" by (simp add: tool_result_state_def)
  have b: "last (messages tool_result_state)
      = ToolMessage (Text ''no relevant information found'') ''call_1'' None"
    by (simp add: tool_result_state_def)
  have c: "messages greeting_state \<noteq> []" by (simp add: greeting_state_def)
  have d: "is_human (last (messages greeting_state))" by (simp add: greeting_state_def)
  from route_terminal_unless_human_or_tool_call [OF a,
      of "Text ''no relevant information found''" "''call_1''" None] b
  have e: "route_after_collector tool_result_state = Inr END
      \<and> route_after_qa tool_result_state = Inr END"
    by blast
  from route_terminal_unless_human_or_tool_call [OF c] d
  have f: "route_after_collector greeting_state = Inr CollectorAgent
      \<and> route_after_qa greeting_state = Inr QaAgent"
    by blast
  from a b c d e f show ?thesis by blast
qed

section \<open>The entry node\<close>

lemma index_by_id_None: "index_by_id acc i = None \<longleftrightarrow> \<not> has_id i acc"
  by (induction acc) (auto simp: has_id_def split: option.splits)

lemma add_messages_Nil: "add_messages l [] = l"
  by (simp add: add_messages_def)

lemma apply_update_entry: "apply_update s (entry_point s) = s"
  by (simp add: apply_update_def entry_point_def add_messages_Nil)

text \<open>
  C4. The entry node returns no messages and neither the profile nor the phase key, so
  merging its dict leaves the state as it was; the route from it is the responder exactly
  when the phase is \<^verbatim>\<open>"qa"\<close>, and the collector otherwise, also when the phase key is missing
  or \<^verbatim>\<open>None\<close>.
\<close>

theorem entry_point_pure_router:
  "messages (entry_point s) = []
   \<and> user_profile (entry_point s) = None
   \<and> phase (entry_point s) = None
   \<and> apply_update s (entry_point s) = s
   \<and> next_node EntryPoint s = Inr (route_from_entry s)
   \<and> (route_from_entry s = QaAgent \<longleftrightarrow> get_phase s = Some ''qa'')
   \<and> (route_from_entry s = CollectorAgent \<longleftrightarrow> get_phase s \<noteq> Some ''qa'')
   \<and> (phase s = None \<or> phase s = Some None \<longrightarrow> route_from_entry s = CollectorAgent)"
proof -
  have frame: "apply_update s (entry_point s) = s"
    by (rule apply_update_entry)
  have dict: "messages (entry_point s) = [] \<and> user_profile (entry_point s) = None
      \<and> phase (entry_point s) = None"
    by (simp add: entry_point_def)
  have edge: "next_node EntryPoint s = Inr (route_from_entry s)"
    by (simp add: conditional_edge_def route_from_entry_def Let_def)
  have route: "(route_from_entry s = QaAgent \<longleftrightarrow> get_phase s = Some ''qa'')
      \<and> (route_from_entry s = CollectorAgent \<longleftrightarrow> get_phase s \<noteq> Some ''qa'')"
    by (auto simp: route_from_entry_def split: option.splits)
  have absent: "phase s = None \<or> phase s = Some None \<longrightarrow> route_from_entry s = CollectorAgent"
    by (auto simp: route_from_entry_def get_phase_def)
  from frame dict edge route absent show ?thesis by simp
qed

theorem entry_point_pure_router_witness:
  "phase greeting_state = None
   \<and> route_from_entry greeting_state = CollectorAgent
   \<and> get_phase asking_state = Some ''qa''
   \<and> route_from_entry asking_state = QaAgent
   \<and> apply_update asking_state (entry_point asking_state) = asking_state"
proof -
  have a: "phase greeting_state = None" by (simp add: greeting_state_def)
  have b: "get_phase asking_state = Some ''qa''" by (simp add: asking_state_def get_phase_def)
  from entry_point_pure_router [of greeting_state] a
  have c: "route_from_entry greeting_state = CollectorAgent" by blast
  from entry_point_pure_router [of asking_state] b
  have d: "route_from_entry asking_state = QaAgent
      \<and> apply_update asking_state (entry_point asking_state) = asking_state"
    by blast
  from a b c d show ?thesis by blast
qed

section \<open>The extraction handler\<close>

lemma merge_message_new:
  "msg_id m = None \<Longrightarrow> merge_message l m = l @ [m]"
  "msg_id m = Some i \<Longrightarrow> \<not> has_id i l \<Longrightarrow> merge_message l m = l @ [m]"
  using index_by_id_None [of l i] by (simp_all add: merge_message_def)

lemma add_messages_fresh: "fresh_for l r \<Longrightarrow> add_messages l r = l @ r"
proof (induction r arbitrary: l)
  case Nil
  then show ?case by (simp add: add_messages_def)
next
  case (Cons m r)
  then have step: "merge_message l m = l @ [m]"
    by (cases "msg_id m") (simp_all add: merge_message_new)
  from Cons have "add_messages (l @ [m]) r = (l @ [m]) @ r" by simp
  with step show ?case by (simp add: add_messages_def)
qed

text \<open>
  C2. When the tool result does not parse into a profile, the extraction handler still
  returns its dict (no exception leaves it): the tool messages, the profile \<^verbatim>\<open>None\<close> and
  the phase \<^verbatim>\<open>"qa"\<close>. After the merge the profile is absent, the phase is \<^verbatim>\<open>"qa"\<close> and the
  tool messages have been merged into the list (appended, when they are new).
\<close>

theorem extraction_parse_failure_non_fatal:
  assumes "parse_tool_result c (extraction_tool_node c s) = Inl e"
  shows "\<exists>u. handle_extraction_tool c s = Inr u
       \<and> run_node c HandleExtractionTool s = Inr u
       \<and> messages u = extraction_tool_node c s
       \<and> user_profile u = Some None
       \<and> phase u = Some (Some ''qa'')
       \<and> get_user_profile (apply_update s u) = None
       \<and> get_phase (apply_update s u) = Some ''qa''
       \<and> messages (apply_update s u) = add_messages (messages s) (extraction_tool_node c s)
       \<and> (fresh_for (messages s) (extraction_tool_node c s) \<longrightarrow>
            messages (apply_update s u) = messages s @ extraction_tool_node c s)"
proof -
  have h: "handle_extraction_tool c s =
           Inr \<lparr>messages = extraction_tool_node c s, user_profile = Some None,
                phase = Some (Some ''qa'')\<rparr>"
    using assms by (simp add: handle_extraction_tool_def Let_def)
  then show ?thesis
    by (simp add: apply_update_def get_user_profile_def get_phase_def add_messages_fresh)
qed

lemma stub_parse:
  "parse_tool_result stub (extraction_tool_node stub greeting_state) = Inl ValidationError"
  by (simp add: parse_tool_result_def stub_def five_fields_def UserProfile_of_def str_field_def)

theorem extraction_parse_failure_non_fatal_witness:
  "parse_tool_result stub (extraction_tool_node stub greeting_state) = Inl ValidationError
   \<and> handle_extraction_tool stub greeting_state =
       Inr \<lparr>messages = [ToolMessage (Text ''partial'') ''call_0'' None],
            user_profile = Some None, phase = Some (Some ''qa'')\<rparr>"
proof -
  from extraction_parse_failure_non_fatal [OF stub_parse]
  obtain u where u: "handle_extraction_tool stub greeting_state = Inr u"
    and m: "messages u = extraction_tool_node stub greeting_state"
    and p: "user_profile u = Some None" and q: "phase u = Some (Some ''qa'')"
    by blast
  have "u = \<lparr>messages = [ToolMessage (Text ''partial'') ''call_0'' None],
            user_profile = Some None, phase = Some (Some ''qa'')\<rparr>"
    using m p q by (simp add: stub_def)
  with u stub_parse show ?thesis by simp
qed

section \<open>The session store\<close>

text \<open>
  C8. \<^verbatim>\<open>get_session\<close> returns \<^verbatim>\<open>None\<close> exactly when the id is unknown or the stored session's
  last activity is older than the timeout. For an unknown id the store is unchanged; for
  an expired session the entry is deleted during the call, so every later call for the id
  returns \<^verbatim>\<open>None\<close> too. The store of the application has a timeout of 60 minutes.
\<close>

theorem get_session_not_found:
  "(fst (get_session store now sid) = None \<longleftrightarrow>
      (sessions store sid = None
       \<or> (\<exists>session. sessions store sid = Some session
             \<and> now - last_activity session > session_timeout store)))
   \<and> (sessions store sid = None \<longrightarrow> get_session store now sid = (None, store))
   \<and> (\<forall>session. sessions store sid = Some session
          \<and> now - last_activity session > session_timeout store \<longrightarrow>
        get_session store now sid = (None, store\<lparr>sessions := (sessions store)(sid := None)\<rparr>)
        \<and> sessions (snd (get_session store now sid)) sid = None
        \<and> (\<forall>later. fst (get_session (snd (get_session store now sid)) later sid) = None))
   \<and> session_timeout session_store = 60 * 60 * 1000000"
  by (auto simp: get_session_def session_store_def SessionStore_init_def timedelta_minutes_def
      split: option.splits)

theorem get_session_not_found_witness:
  "sessions one_session_store ''s1'' = Some old_session
   \<and> 3600000001 - last_activity old_session > session_timeout one_session_store
   \<and> get_session one_session_store 3600000001 ''s1''
       = (None, one_session_store\<lparr>sessions := (sessions one_session_store)(''s1'' := None)\<rparr>)
   \<and> fst (get_session (snd (get_session one_session_store 3600000001 ''s1'')) 3600000002 ''s1'')
       = None
   \<and> get_session one_session_store 3600000000 ''s1'' = (Some old_session, one_session_store)
   \<and> get_session one_session_store 3600000001 ''s2'' = (None, one_session_store)"
proof -
  have a: "sessions one_session_store ''s1'' = Some old_session"
    by (simp add: one_session_store_def)
  have b: "3600000001 - last_activity old_session > session_timeout one_session_store"
    by (simp add: one_session_store_def old_session_def session_store_def SessionStore_init_def
        timedelta_minutes_def)
  have c: "get_session one_session_store 3600000000 ''s1''
      = (Some old_session, one_session_store)"
    by (simp add: get_session_def one_session_store_def old_session_def session_store_def
        SessionStore_init_def timedelta_minutes_def)
  have d: "sessions one_session_store ''s2'' = None"
    by (simp add: one_session_store_def)
  from get_session_not_found [of one_session_store 3600000001 "''s1''"] a b
  have e: "get_session one_session_store 3600000001 ''s1''
       = (None, one_session_store\<lparr>sessions := (sessions one_session_store)(''s1'' := None)\<rparr>)
     \<and> fst (get_session (snd (get_session one_session_store 3600000001 ''s1''))
          3600000002 ''s1'') = None"
    by blast
  from get_session_not_found [of one_session_store 3600000001 "''s2''"] d
  have f: "get_session one_session_store 3600000001 ''s2'' = (None, one_session_store)"
    by blast
  from a b c e f show ?thesis by blast
qed

section \<open>The message reducer\<close>

lemma index_by_id_Some:
  "index_by_id acc i = Some k \<Longrightarrow> k < length acc \<and> msg_id (acc ! k) = Some i"
  by (induction acc arbitrary: k) (auto split: option.splits if_splits)



lemma ids_update:
  "index_by_id acc i = Some k \<Longrightarrow> msg_id m = Some i \<Longrightarrow>
   map msg_id (acc[k := m]) = map msg_id acc"
  using index_by_id_Some [of acc i k] by (simp add: map_update list_update_same_conv)


lemma merge_message_cases:
  "merge_message acc m = acc @ [m]
   \<or> (\<exists>i k. msg_id m = Some i \<and> index_by_id acc i = Some k \<and> merge_message acc m = acc[k := m])"
  by (auto simp: merge_message_def split: option.splits)

lemma merge_message_length: "length acc \<le> length (merge_message acc m)"
  using merge_message_cases [of acc m] by auto

lemma merge_message_ids:
  "take (length acc) (map msg_id (merge_message acc m)) = map msg_id acc"
  using merge_message_cases [of acc m] by (auto simp: ids_update)

lemma merge_message_nth:
  assumes "j < length acc"
  shows "merge_message acc m ! j = acc ! j
       \<or> (merge_message acc m ! j = m \<and> msg_id m = msg_id (acc ! j) \<and> msg_id m \<noteq> None)"
  using merge_message_cases [of acc m]
proof
  assume "merge_message acc m = acc @ [m]"
  with assms show ?thesis by (simp add: nth_append)
next
  assume "\<exists>i k. msg_id m = Some i \<and> index_by_id acc i = Some k
      \<and> merge_message acc m = acc[k := m]"
  then obtain i k where i: "msg_id m = Some i" and k: "index_by_id acc i = Some k"
    and e: "merge_message acc m = acc[k := m]" by blast
  from index_by_id_Some [OF k] have "msg_id (acc ! k) = Some i" by simp
  with assms i e show ?thesis by (cases "j = k") simp_all
qed

lemma add_messages_snoc: "add_messages l (r @ [m]) = merge_message (add_messages l r) m"
  by (simp add: add_messages_def)


lemma add_messages_length: "length l \<le> length (add_messages l r)"
proof (induction r rule: rev_induct)
  case Nil
  then show ?case by (simp add: add_messages_def)
next
  case (snoc m r)
  then show ?case
    using merge_message_length [of "add_messages l r" m] by (simp add: add_messages_snoc)
qed

lemma add_messages_ids: "take (length l) (map msg_id (add_messages l r)) = map msg_id l"
proof (induction r rule: rev_induct)
  case Nil
  then show ?case by (simp add: add_messages_def)
next
  case (snoc m r)
  let ?a = "add_messages l r"
  have "take (length l) (map msg_id (merge_message ?a m))
      = take (length l) (take (length ?a) (map msg_id (merge_message ?a m)))"
    using add_messages_length [of l r] by (simp add: min_def)
  also have "\<dots> = take (length l) (map msg_id ?a)"
    by (simp only: merge_message_ids)
  finally show ?case using snoc by (simp add: add_messages_snoc)
qed

lemma add_messages_nth:
  assumes "j < length l"
  shows "add_messages l r ! j = l ! j
       \<or> (add_messages l r ! j \<in> set r \<and> msg_id (add_messages l r ! j) = msg_id (l ! j)
          \<and> msg_id (l ! j) \<noteq> None)"
proof (induction r rule: rev_induct)
  case Nil
  then show ?case by (simp add: add_messages_def)
next
  case (snoc m r)
  let ?a = "add_messages l r"
  have j: "j < length ?a" using assms add_messages_length [of l r] by simp
  have ids: "msg_id (?a ! j) = msg_id (l ! j)"
    using add_messages_ids [of l r] assms j
    by (metis nth_map nth_take length_map)
  from merge_message_nth [OF j, of m] show ?case
  proof
    assume "merge_message ?a m ! j = ?a ! j"
    with snoc ids show ?thesis by (auto simp: add_messages_snoc)
  next
    assume "merge_message ?a m ! j = m \<and> msg_id m = msg_id (?a ! j) \<and> msg_id m \<noteq> None"
    then have e: "merge_message ?a m ! j = m" and f: "msg_id m = msg_id (?a ! j)"
      and g: "msg_id m \<noteq> None" by blast+
    from f ids have h: "msg_id m = msg_id (l ! j)" by simp
    with g have "msg_id (l ! j) \<noteq> None" by metis
    with e h show ?thesis by (simp add: add_messages_snoc)
  qed
qed

lemma add_messages_untouched:
  assumes "j < length l"
    and "\<forall>m \<in> set r. msg_id m = None \<or> msg_id m \<noteq> msg_id (l ! j)"
  shows "add_messages l r ! j = l ! j"
  using add_messages_nth [OF assms(1), of r] assms(2) by auto





section \<open>The execution loop\<close>

lemma run_END: "run c k END s = Inr ([], s)"
  by (cases k) simp_all

lemma run_node_Inr: "\<exists>u. run_node c n s = Inr u"
  by (cases n) (simp_all add: handle_extraction_tool_def Let_def)

lemma merge_message_nonempty: "merge_message l m \<noteq> []"
  using merge_message_cases [of l m] index_by_id_Some [of l] by auto

lemma add_messages_single_nonempty: "add_messages l [m] \<noteq> []"
  by (simp add: add_messages_def merge_message_nonempty)

lemma agent_messages_nonempty:
  "messages (apply_update s (collector_agent c s)) \<noteq> []"
  "messages (apply_update s (qa_agent c s)) \<noteq> []"
  by (simp_all add: apply_update_def collector_agent_def qa_agent_def Let_def
      add_messages_single_nonempty)

lemma next_node_cases:
  assumes "run_node c n s = Inr u"
  shows "(\<exists>n'. next_node n (apply_update s u) = Inr n')
       \<or> next_node n (apply_update s u) = Inl KeyError"
proof (cases n)
  case EntryPoint
  then show ?thesis by (simp add: conditional_edge_def route_from_entry_def Let_def)
next
  case CollectorAgent
  with assms have "u = collector_agent c s" by simp
  with CollectorAgent agent_messages_nonempty(1) [of s c] show ?thesis
    by (simp add: conditional_edge_def route_after_collector_def last_message_nonempty)
next
  case QaAgent
  with assms have "u = qa_agent c s" by simp
  with QaAgent agent_messages_nonempty(2) [of s c] show ?thesis
    by (simp add: conditional_edge_def route_after_qa_def last_message_nonempty)
qed simp_all

lemma run_Suc:
  assumes "n \<noteq> END" and "run_node c n s = Inr u" and "next_node n (apply_update s u) = Inr n'"
  shows "run c (Suc k) n s =
           (case run c k n' (apply_update s u) of
              Inl e \<Rightarrow> Inl e
            | Inr (chunks, final) \<Rightarrow> Inr ([(n, u)] # chunks, final))"
  using assms by simp

lemma run_Suc_Inr:
  assumes "n \<noteq> END" and "run c (Suc k) n s = Inr (chunks, final)"
  obtains u n' rest where "run_node c n s = Inr u"
    and "next_node n (apply_update s u) = Inr n'"
    and "run c k n' (apply_update s u) = Inr (rest, final)"
    and "chunks = [(n, u)] # rest"
  using assms by (auto split: sum.splits)

lemma run_result:
  "(\<exists>chunks final. run c k n s = Inr (chunks, final))
   \<or> run c k n s = Inl GraphRecursionError \<or> run c k n s = Inl KeyError"
proof (induction k arbitrary: n s)
  case 0
  then show ?case by simp
next
  case (Suc k)
  show ?case
  proof (cases "n = END")
    case True
    then show ?thesis by simp
  next
    case False
    obtain u where u: "run_node c n s = Inr u" using run_node_Inr by blast
    from next_node_cases [OF u] show ?thesis
    proof
      assume "\<exists>n'. next_node n (apply_update s u) = Inr n'"
      then obtain n' where n': "next_node n (apply_update s u) = Inr n'" by blast
      from Suc.IH [of n' "apply_update s u"] run_Suc [OF False u n', of k] show ?thesis
        by auto
    next
      assume "next_node n (apply_update s u) = Inl KeyError"
      with False u show ?thesis by simp
    qed
  qed
qed

lemma run_path:
  "run c k n s = Inr (chunks, final) \<Longrightarrow> path c n s chunks final \<and> length chunks \<le> k"
proof (induction k arbitrary: n s chunks)
  case 0
  then show ?case by (auto split: if_splits intro: path_END)
next
  case (Suc k)
  show ?case
  proof (cases "n = END")
    case True
    with Suc.prems show ?thesis by (auto intro: path_END)
  next
    case False
    from run_Suc_Inr [OF False Suc.prems]
    obtain u n' rest where u: "run_node c n s = Inr u"
      and n': "next_node n (apply_update s u) = Inr n'"
      and r: "run c k n' (apply_update s u) = Inr (rest, final)"
      and c: "chunks = [(n, u)] # rest"
      by blast
    from Suc.IH [OF r] have "path c n' (apply_update s u) rest final" and "length rest \<le> k"
      by simp_all
    with path_step [OF False u n'] c show ?thesis by simp
  qed
qed

lemma path_run:
  "path c n s chunks final \<Longrightarrow> length chunks \<le> k \<Longrightarrow> run c k n s = Inr (chunks, final)"
proof (induction arbitrary: k rule: path.induct)
  case (path_END s)
  then show ?case by (simp add: run_END)
next
  case (path_step n s u n' chunks final)
  from path_step.prems obtain j where k: "k = Suc j" and "length chunks \<le> j"
    by (cases k) auto
  with path_step.IH [of j] have "run c j n' (apply_update s u) = Inr (chunks, final)" by simp
  with run_Suc [OF path_step.hyps(1,2,3), of j] k show ?case by simp
qed

lemma path_too_long:
  "path c n s chunks final \<Longrightarrow> k < length chunks \<Longrightarrow> run c k n s = Inl GraphRecursionError"
proof (induction arbitrary: k rule: path.induct)
  case (path_END s)
  then show ?case by simp
next
  case (path_step n s u n' chunks final)
  show ?case
  proof (cases k)
    case 0
    with path_step.hyps(1) show ?thesis by simp
  next
    case (Suc j)
    with path_step.prems have "j < length chunks" by simp
    from path_step.IH [OF this] run_Suc [OF path_step.hyps(1,2,3), of j] Suc show ?thesis
      by simp
  qed
qed

lemma tool_call_is_ai: "is_tool_call_request m \<Longrightarrow> is_ai m"
  by (cases m) simp_all

lemma tool_call_not_human: "is_tool_call_request m \<Longrightarrow> \<not> is_human m"
  by (cases m) simp_all

lemma ai_count_append [simp]: "ai_count (a @ b) = ai_count a + ai_count b"
  by (simp add: ai_count_def)

lemma messages_step:
  assumes "new_messages c" and "run_node c n s = Inr u"
  shows "messages (apply_update s u) = messages s @ messages u"
proof -
  from assms have "fresh_for (messages s) (messages u)"
    by (cases n)
       (auto simp: new_messages_def entry_point_def collector_agent_def qa_agent_def
          handle_extraction_tool_def handle_search_tool_def Let_def)
  then show ?thesis by (simp add: apply_update_def add_messages_fresh)
qed

lemma run_tools_while:
  assumes "calls_tools_while c limit"
  shows "n \<noteq> END \<Longrightarrow> ai_count (messages s) + k \<le> limit \<Longrightarrow>
         run c k n s = Inl GraphRecursionError"
proof (induction k arbitrary: n s)
  case 0
  then show ?case by simp
next
  case (Suc k)
  from assms have new: "new_messages c" by (simp add: calls_tools_while_def)
  obtain u where u: "run_node c n s = Inr u" using run_node_Inr by blast
  note ms = messages_step [OF new u]
  from Suc.prems(2) have below: "ai_count (messages s) < limit" by simp
  have "\<exists>n'. next_node n (apply_update s u) = Inr n' \<and> n' \<noteq> END
      \<and> ai_count (messages u) \<le> 1"
  proof (cases n)
    case EntryPoint
    with u show ?thesis
      by (auto simp: conditional_edge_def route_from_entry_def Let_def entry_point_def
          ai_count_def)
  next
    case CollectorAgent
    let ?p = "SystemMessage (Text (info_collection_prompt c)) None # messages s"
    let ?m = "collector_llm c ?p"
    from CollectorAgent u have uu: "messages u = [?m]"
      by (auto simp: collector_agent_def Let_def)
    have "ai_count ?p < limit" using below by (simp add: ai_count_def)
    with assms have tc: "is_tool_call_request ?m" by (simp add: calls_tools_while_def)
    from ms uu have "messages (apply_update s u) = messages s @ [?m]" by simp
    with tc CollectorAgent uu show ?thesis
      by (simp add: route_after_collector_def last_message_def conditional_edge_def
          ai_count_def)
  next
    case QaAgent
    let ?p = "SystemMessage (Text (qa_prompt c)) None # messages s"
    let ?m = "qa_llm c ?p"
    from QaAgent u have uu: "messages u = [?m]"
      by (auto simp: qa_agent_def Let_def)
    have "ai_count ?p < limit" using below by (simp add: ai_count_def)
    with assms have tc: "is_tool_call_request ?m" by (simp add: calls_tools_while_def)
    from ms uu have "messages (apply_update s u) = messages s @ [?m]" by simp
    with tc QaAgent uu show ?thesis
      by (simp add: route_after_qa_def last_message_def conditional_edge_def ai_count_def)
  next
    case HandleExtractionTool
    with u assms show ?thesis
      by (auto simp: handle_extraction_tool_def Let_def calls_tools_while_def)
  next
    case HandleSearchTool
    with u assms show ?thesis
      by (auto simp: handle_search_tool_def calls_tools_while_def)
  next
    case END
    with Suc.prems show ?thesis by simp
  qed
  then obtain n' where n': "next_node n (apply_update s u) = Inr n'" and ne: "n' \<noteq> END"
    and one: "ai_count (messages u) \<le> 1"
    by blast
  have "ai_count (messages (apply_update s u)) + k \<le> limit"
    using ms one Suc.prems(2) by simp
  from Suc.IH [OF ne this] run_Suc [OF Suc.prems(1) u n', of k] show ?case by simp
qed

lemma run_always_tools:
  assumes "always_calls_tools c" and "n \<noteq> END"
  shows "run c k n s = Inl GraphRecursionError"
  using assms(2)
proof (induction k arbitrary: n s)
  case 0
  then show ?case by simp
next
  case (Suc k)
  from assms(1) have new: "new_messages c" by (simp add: always_calls_tools_def)
  obtain u where u: "run_node c n s = Inr u" using run_node_Inr by blast
  note ms = messages_step [OF new u]
  have "\<exists>n'. next_node n (apply_update s u) = Inr n' \<and> n' \<noteq> END"
  proof (cases n)
    case EntryPoint
    then show ?thesis by (simp add: conditional_edge_def route_from_entry_def Let_def)
  next
    case CollectorAgent
    let ?m = "collector_llm c (SystemMessage (Text (info_collection_prompt c)) None # messages s)"
    from CollectorAgent u have uu: "messages u = [?m]"
      by (auto simp: collector_agent_def Let_def)
    from assms(1) have tc: "is_tool_call_request ?m" by (simp add: always_calls_tools_def)
    from ms uu have "messages (apply_update s u) = messages s @ [?m]" by simp
    with tc CollectorAgent show ?thesis
      by (simp add: route_after_collector_def last_message_def conditional_edge_def)
  next
    case QaAgent
    let ?m = "qa_llm c (SystemMessage (Text (qa_prompt c)) None # messages s)"
    from QaAgent u have uu: "messages u = [?m]"
      by (auto simp: qa_agent_def Let_def)
    from assms(1) have tc: "is_tool_call_request ?m" by (simp add: always_calls_tools_def)
    from ms uu have "messages (apply_update s u) = messages s @ [?m]" by simp
    with tc QaAgent show ?thesis
      by (simp add: route_after_qa_def last_message_def conditional_edge_def)
  next
    case END
    with Suc.prems show ?thesis by simp
  qed simp_all
  then obtain n' where n': "next_node n (apply_update s u) = Inr n'" and ne: "n' \<noteq> END"
    by blast
  from Suc.IH [OF ne] run_Suc [OF Suc.prems u n', of k] show ?case by simp
qed

lemma run_no_KeyError:
  assumes "new_messages c"
    and "\<forall>msgs. \<not> is_human (collector_llm c msgs) \<and> \<not> is_human (qa_llm c msgs)"
  shows "run c k n s \<noteq> Inl KeyError"
proof (induction k arbitrary: n s)
  case 0
  then show ?case by simp
next
  case (Suc k)
  show ?case
  proof (cases "n = END")
    case True
    then show ?thesis by simp
  next
    case False
    obtain u where u: "run_node c n s = Inr u" using run_node_Inr by blast
    note ms = messages_step [OF assms(1) u]
    have "\<exists>n'. next_node n (apply_update s u) = Inr n'"
    proof (cases n)
      case EntryPoint
      then show ?thesis by (simp add: conditional_edge_def route_from_entry_def Let_def)
    next
      case CollectorAgent
      let ?m = "collector_llm c (SystemMessage (Text (info_collection_prompt c)) None # messages s)"
      from CollectorAgent u have uu: "messages u = [?m]"
        by (auto simp: collector_agent_def Let_def)
      from ms uu have "messages (apply_update s u) = messages s @ [?m]" by simp
      with assms(2) CollectorAgent show ?thesis
        by (simp add: route_after_collector_def last_message_def conditional_edge_def)
    next
      case QaAgent
      let ?m = "qa_llm c (SystemMessage (Text (qa_prompt c)) None # messages s)"
      from QaAgent u have uu: "messages u = [?m]"
        by (auto simp: qa_agent_def Let_def)
      from ms uu have "messages (apply_update s u) = messages s @ [?m]" by simp
      with assms(2) QaAgent show ?thesis
        by (simp add: route_after_qa_def last_message_def conditional_edge_def)
    qed simp_all
    then obtain n' where n': "next_node n (apply_update s u) = Inr n'" by blast
    from Suc.IH [of n' "apply_update s u"] run_Suc [OF False u n', of k] show ?thesis
      by (auto split: sum.splits)
  qed
qed

lemma invoke_text_answer:
  assumes "get_phase s = Some ''qa''"
    and "fresh_for (messages s) [qa_llm c (SystemMessage (Text (qa_prompt c)) None # messages s)]"
    and "\<not> is_tool_call_request (qa_llm c (SystemMessage (Text (qa_prompt c)) None # messages s))"
    and "\<not> is_human (qa_llm c (SystemMessage (Text (qa_prompt c)) None # messages s))"
  shows "invoke c s =
           Inr ([[(EntryPoint, entry_point s)], [(QaAgent, qa_agent c s)]],
                apply_update s (qa_agent c s))"
proof -
  let ?m = "qa_llm c (SystemMessage (Text (qa_prompt c)) None # messages s)"
  have e: "apply_update s (entry_point s) = s" by (rule apply_update_entry)
  have n1: "next_node EntryPoint (apply_update s (entry_point s)) = Inr QaAgent"
    using assms(1) by (simp add: e conditional_edge_def route_from_entry_def)
  have "messages (apply_update s (qa_agent c s)) = messages s @ [?m]"
    using assms(2) by (simp add: apply_update_def qa_agent_def Let_def add_messages_fresh)
  then have n2: "next_node QaAgent (apply_update s (qa_agent c s)) = Inr END"
    using assms(3,4) by (simp add: route_after_qa_def last_message_def conditional_edge_def)
  have r2: "run c (Suc k) QaAgent s =
      Inr ([[(QaAgent, qa_agent c s)]], apply_update s (qa_agent c s))" for k
    using run_Suc [of QaAgent c s "qa_agent c s" END k] n2 by (simp add: run_END)
  have r1: "run c (Suc (Suc k)) EntryPoint s =
           Inr ([[(EntryPoint, entry_point s)], [(QaAgent, qa_agent c s)]],
                apply_update s (qa_agent c s))" for k
    using run_Suc [of EntryPoint c s "entry_point s" QaAgent "Suc k"] n1 r2 [of k]
    by (simp only: e run_node.simps node.distinct simp_thms sum.case prod.case)
  have "recursion_limit = Suc (Suc 48)" by (simp add: recursion_limit_def)
  with r1 [of 48] show ?thesis by (simp only: invoke_def)
qed

lemma chat_workflow_error:
  assumes "stream c (chat_initial_state request) = Inl e"
  shows "chat (stream c) apology request = Inl (HTTPException 500 ''Internal server error'')"
  using assms by (simp add: chat_def chat_body_def)

text \<open>
  C5. With the step budget of 50 the run from the entry node always returns. If applying
  the transition table reaches the terminal state in at most 50 steps, the run returns
  those steps and the final state, and it returns nothing else; if it takes more steps,
  the result is the recursion-limit error. The only other outcome is the \<^verbatim>\<open>KeyError\<close> of a
  route that is not among the destinations of its edge, which needs a model that answers
  with a human message or with an id that is already stored. A responder that answers a
  state in phase \<^verbatim>\<open>"qa"\<close> with a new text message ends the run after two steps. If both
  models answer with new tool calls as long as fewer than 51 assistant messages were added
  to the history, or always, the result is the recursion-limit error, and the chat call
  that ran the graph fails with status 500.
\<close>

theorem stream_terminates_within_budget:
  "((\<exists>chunks final. invoke c s = Inr (chunks, final))
      \<or> invoke c s = Inl GraphRecursionError \<or> invoke c s = Inl KeyError)
   \<and> (\<forall>chunks final. invoke c s = Inr (chunks, final) \<longleftrightarrow>
        path c EntryPoint s chunks final \<and> length chunks \<le> 50)
   \<and> (\<forall>chunks final. path c EntryPoint s chunks final \<and> 50 < length chunks \<longrightarrow>
        invoke c s = Inl GraphRecursionError)
   \<and> (\<forall>chunks final. invoke c s = Inr (chunks, final) \<longrightarrow> stream c s = Inr chunks \<and> chunks \<noteq> [])
   \<and> (new_messages c
        \<and> (\<forall>msgs. \<not> is_human (collector_llm c msgs) \<and> \<not> is_human (qa_llm c msgs)) \<longrightarrow>
        invoke c s \<noteq> Inl KeyError)
   \<and> (get_phase s = Some ''qa''
        \<and> fresh_for (messages s)
            [qa_llm c (SystemMessage (Text (qa_prompt c)) None # messages s)]
        \<and> \<not> is_tool_call_request
            (qa_llm c (SystemMessage (Text (qa_prompt c)) None # messages s))
        \<and> \<not> is_human (qa_llm c (SystemMessage (Text (qa_prompt c)) None # messages s)) \<longrightarrow>
        invoke c s =
          Inr ([[(EntryPoint, entry_point s)], [(QaAgent, qa_agent c s)]],
               apply_update s (qa_agent c s)))
   \<and> (calls_tools_while c (ai_count (messages s) + 51) \<or> always_calls_tools c \<longrightarrow>
        invoke c s = Inl GraphRecursionError \<and> stream c s = Inl GraphRecursionError)
   \<and> (calls_tools_while c (ai_count (messages (chat_initial_state request)) + 51)
        \<or> always_calls_tools c \<longrightarrow>
        chat (stream c) apology request = Inl (HTTPException 500 ''Internal server error''))"
proof -
  have a: "(\<exists>chunks final. invoke c s = Inr (chunks, final))
      \<or> invoke c s = Inl GraphRecursionError \<or> invoke c s = Inl KeyError"
    unfolding invoke_def by (rule run_result)
  have lim: "recursion_limit = 50" by (simp add: recursion_limit_def)
  have b: "\<forall>chunks final. invoke c s = Inr (chunks, final) \<longleftrightarrow>
        path c EntryPoint s chunks final \<and> length chunks \<le> 50"
  proof (intro allI iffI)
    fix chunks final
    assume "invoke c s = Inr (chunks, final)"
    then have "run c 50 EntryPoint s = Inr (chunks, final)" by (simp only: invoke_def lim)
    from run_path [OF this] show "path c EntryPoint s chunks final \<and> length chunks \<le> 50" .
  next
    fix chunks final
    assume "path c EntryPoint s chunks final \<and> length chunks \<le> 50"
    then have "run c 50 EntryPoint s = Inr (chunks, final)" using path_run by blast
    then show "invoke c s = Inr (chunks, final)" by (simp only: invoke_def lim)
  qed
  have d: "\<forall>chunks final. path c EntryPoint s chunks final \<and> 50 < length chunks \<longrightarrow>
        invoke c s = Inl GraphRecursionError"
  proof (intro allI impI)
    fix chunks final
    assume "path c EntryPoint s chunks final \<and> 50 < length chunks"
    then have "run c 50 EntryPoint s = Inl GraphRecursionError" using path_too_long by blast
    then show "invoke c s = Inl GraphRecursionError" by (simp only: invoke_def lim)
  qed
  have e: "\<forall>chunks final. invoke c s = Inr (chunks, final) \<longrightarrow>
      stream c s = Inr chunks \<and> chunks \<noteq> []"
  proof (intro allI impI)
    fix chunks final
    assume i: "invoke c s = Inr (chunks, final)"
    then have "run c (Suc 49) EntryPoint s = Inr (chunks, final)"
      by (simp add: invoke_def recursion_limit_def)
    from run_Suc_Inr [OF _ this] have "chunks \<noteq> []" by auto
    with i show "stream c s = Inr chunks \<and> chunks \<noteq> []" by (simp add: stream_def)
  qed
  have f: "new_messages c
        \<and> (\<forall>msgs. \<not> is_human (collector_llm c msgs) \<and> \<not> is_human (qa_llm c msgs)) \<longrightarrow>
        invoke c s \<noteq> Inl KeyError"
    using run_no_KeyError by (simp add: invoke_def)
  have g: "get_phase s = Some ''qa''
        \<and> fresh_for (messages s)
            [qa_llm c (SystemMessage (Text (qa_prompt c)) None # messages s)]
        \<and> \<not> is_tool_call_request
            (qa_llm c (SystemMessage (Text (qa_prompt c)) None # messages s))
        \<and> \<not> is_human (qa_llm c (SystemMessage (Text (qa_prompt c)) None # messages s)) \<longrightarrow>
        invoke c s =
          Inr ([[(EntryPoint, entry_point s)], [(QaAgent, qa_agent c s)]],
               apply_update s (qa_agent c s))"
    using invoke_text_answer by blast
  have h0: "\<And>t :: WorkflowState. calls_tools_while c (ai_count (messages t) + 51) \<or> always_calls_tools c \<Longrightarrow>
        invoke c t = Inl GraphRecursionError"
  proof -
    fix t :: WorkflowState
    assume "calls_tools_while c (ai_count (messages t) + 51) \<or> always_calls_tools c"
    then show "invoke c t = Inl GraphRecursionError"
    proof
      assume w: "calls_tools_while c (ai_count (messages t) + 51)"
      have "ai_count (messages t) + recursion_limit \<le> ai_count (messages t) + 51"
        by (simp add: recursion_limit_def)
      from run_tools_while [OF w _ this, of EntryPoint] show ?thesis by (simp add: invoke_def)
    next
      assume "always_calls_tools c"
      then show ?thesis by (simp add: invoke_def run_always_tools)
    qed
  qed
  have h: "calls_tools_while c (ai_count (messages s) + 51) \<or> always_calls_tools c \<longrightarrow>
        invoke c s = Inl GraphRecursionError \<and> stream c s = Inl GraphRecursionError"
    using h0 [of s] by (simp add: stream_def)
  have i: "calls_tools_while c (ai_count (messages (chat_initial_state request)) + 51)
        \<or> always_calls_tools c \<longrightarrow>
        chat (stream c) apology request = Inl (HTTPException 500 ''Internal server error'')"
    using h0 [of "chat_initial_state request"] chat_workflow_error [of c request]
    by (simp add: stream_def)
  show ?thesis by (intro conjI; rule a b d e f g h i)
qed

lemma invoke_question:
  "invoke answering_stub question_state =
     Inr ([[(EntryPoint, \<lparr>messages = [], user_profile = None, phase = None\<rparr>)],
           [(QaAgent, \<lparr>messages = [AIMessage (Text []) [search_call] None],
                       user_profile = Some (Some dana), phase = Some (Some ''qa'')\<rparr>)],
           [(HandleSearchTool,
             \<lparr>messages = [ToolMessage (Text ''Dental: two visits a year'') ''call_1'' None],
              user_profile = None, phase = None\<rparr>)],
           [(QaAgent, \<lparr>messages = [AIMessage (Text ''Here is what I found.'') [] None],
                       user_profile = Some (Some dana), phase = Some (Some ''qa'')\<rparr>)]],
          \<lparr>messages = [HumanMessage (Text ''What does my plan cover for dental?'') None,
                       AIMessage (Text []) [search_call] None,
                       ToolMessage (Text ''Dental: two visits a year'') ''call_1'' None,
                       AIMessage (Text ''Here is what I found.'') [] None],
           user_profile = Some (Some dana), phase = Some (Some ''qa'')\<rparr>)"
  by (simp add: invoke_def recursion_limit_def eval_nat_numeral answering_stub_def
      question_state_def entry_point_def qa_agent_def handle_search_tool_def apply_update_def
      add_messages_def merge_message_def route_from_entry_def route_after_qa_def
      conditional_edge_def last_message_def get_phase_def get_user_profile_def Let_def)

lemma counting_stub_tools: "calls_tools_while counting_stub 51"
  by (simp add: calls_tools_while_def new_messages_def counting_stub_def ai_count_def)

theorem stream_terminates_within_budget_witness:
  "calls_tools_while counting_stub (ai_count (messages greeting_state) + 51)
   \<and> \<not> is_tool_call_request
         (qa_llm counting_stub (replicate 51 (AIMessage (Text []) [search_call] None)))
   \<and> \<not> always_calls_tools counting_stub
   \<and> invoke counting_stub greeting_state = Inl GraphRecursionError
   \<and> stream counting_stub greeting_state = Inl GraphRecursionError
   \<and> chat (stream counting_stub) ''Please try again'' first_request
       = Inl (HTTPException 500 ''Internal server error'')
   \<and> (\<exists>chunks final. invoke answering_stub question_state = Inr (chunks, final)
        \<and> path answering_stub EntryPoint question_state chunks final
        \<and> length chunks = 4
        \<and> stream answering_stub question_state = Inr chunks)"
proof -
  have z: "ai_count (messages greeting_state) = 0"
    "ai_count (messages (chat_initial_state first_request)) = 0"
    by (simp_all add: greeting_state_def chat_initial_state_def first_request_def ai_count_def
        Let_def)
  have w: "calls_tools_while counting_stub (ai_count (messages greeting_state) + 51)"
    "calls_tools_while counting_stub
       (ai_count (messages (chat_initial_state first_request)) + 51)"
    using counting_stub_tools by (simp_all add: z)
  have t: "\<not> is_tool_call_request
         (qa_llm counting_stub (replicate 51 (AIMessage (Text []) [search_call] None)))"
    by (simp add: counting_stub_def ai_count_def)
  then have n: "\<not> always_calls_tools counting_stub"
    by (auto simp: always_calls_tools_def)
  note inst1 = stream_terminates_within_budget [of counting_stub greeting_state
      first_request "''Please try again''"]
  note inst2 = stream_terminates_within_budget [of answering_stub question_state
      first_request "''Please try again''"]
  from inst1 w have a: "invoke counting_stub greeting_state = Inl GraphRecursionError"
    and b: "stream counting_stub greeting_state = Inl GraphRecursionError"
    and c: "chat (stream counting_stub) ''Please try again'' first_request
       = Inl (HTTPException 500 ''Internal server error'')"
    by blast+
  from inst2 invoke_question
  have d: "\<exists>chunks final. invoke answering_stub question_state = Inr (chunks, final)
        \<and> path answering_stub EntryPoint question_state chunks final
        \<and> length chunks = 4
        \<and> stream answering_stub question_state = Inr chunks"
    by auto
  from w(1) t n a b c d show ?thesis by blast
qed

section \<open>Invariants of a run\<close>

lemma runs_of_simps [simp]:
  "runs_of n [] = 0"
  "runs_of n ([(m, u)] # chunks) = (if n = m then 1 else 0) + runs_of n chunks"
  by (auto simp: runs_of_def)

lemma chunk_messages_simps [simp]:
  "chunk_messages [] = []"
  "chunk_messages ([(m, u)] # chunks) = messages u @ chunk_messages chunks"
  by (simp_all add: chunk_messages_def)

lemma phase_step:
  assumes "run_node c n s = Inr u"
  shows "get_phase (apply_update s u) = (if n = HandleExtractionTool then Some ''qa'' else get_phase s)"
  using assms
  by (cases n)
     (auto simp: apply_update_def get_phase_def entry_point_def collector_agent_def qa_agent_def
        handle_extraction_tool_def handle_search_tool_def Let_def split: option.splits)

lemma profile_step:
  assumes "run_node c n s = Inr u" and "n \<noteq> HandleExtractionTool"
  shows "get_user_profile (apply_update s u) = get_user_profile s"
  using assms
  by (cases n)
     (auto simp: apply_update_def get_user_profile_def entry_point_def collector_agent_def
        qa_agent_def handle_search_tool_def Let_def split: option.splits)

lemma next_from:
  assumes "next_node n s = Inr n'"
  shows "(n = EntryPoint \<longrightarrow> n' = QaAgent \<or> n' = CollectorAgent)
       \<and> (n = EntryPoint \<and> get_phase s = Some ''qa'' \<longrightarrow> n' = QaAgent)
       \<and> (n = CollectorAgent \<longrightarrow> n' = HandleExtractionTool \<or> n' = END)
       \<and> (n = HandleExtractionTool \<longrightarrow> n' = QaAgent)
       \<and> (n = QaAgent \<longrightarrow> n' = HandleSearchTool \<or> n' = END)
       \<and> (n = HandleSearchTool \<longrightarrow> n' = QaAgent)
       \<and> (n = END \<longrightarrow> n' = END)"
  using assms
  by (cases n)
     (auto simp: conditional_edge_def route_from_entry_def route_after_collector_def
        route_after_qa_def Let_def split: sum.splits if_splits)


lemma run_qa:
  assumes "n = QaAgent \<or> n = HandleSearchTool"
    and "run c k n s = Inr (chunks, final)"
  shows "get_user_profile final = get_user_profile s
       \<and> get_phase final = get_phase s
       \<and> runs_of HandleExtractionTool chunks = 0
       \<and> runs_of CollectorAgent chunks = 0
       \<and> chunks \<noteq> []
       \<and> (\<exists>u. last chunks = [(QaAgent, u)] \<and> user_profile u = Some (get_user_profile s)
              \<and> phase u = Some (get_phase s))"
  using assms
proof (induction k arbitrary: n s chunks)
  case 0
  then show ?case by (auto split: if_splits)
next
  case (Suc k)
  from Suc.prems(1) have ne: "n \<noteq> END" and nh: "n \<noteq> HandleExtractionTool" by auto
  from run_Suc_Inr [OF ne Suc.prems(2)]
  obtain u n' rest where u: "run_node c n s = Inr u"
    and n': "next_node n (apply_update s u) = Inr n'"
    and r: "run c k n' (apply_update s u) = Inr (rest, final)"
    and c: "chunks = [(n, u)] # rest"
    by blast
  let ?s = "apply_update s u"
  have ph: "get_phase ?s = get_phase s" using phase_step [OF u] nh by simp
  have pr: "get_user_profile ?s = get_user_profile s" by (rule profile_step [OF u nh])
  from next_from [OF n'] Suc.prems(1)
  have opts: "n' = QaAgent \<or> n' = HandleSearchTool \<or> (n' = END \<and> n = QaAgent)" by auto
  show ?case
  proof (cases "n' = END")
    case True
    with opts have nq: "n = QaAgent" by simp
    from True r have "rest = []" and "final = ?s" by (simp_all add: run_END)
    moreover from nq u have "user_profile u = Some (get_user_profile s)"
      and "phase u = Some (get_phase s)"
      by (auto simp: qa_agent_def Let_def)
    ultimately show ?thesis using c nq ph pr by simp
  next
    case False
    with opts have "n' = QaAgent \<or> n' = HandleSearchTool" by simp
    from Suc.IH [OF this r] c ph pr Suc.prems(1) show ?thesis by auto
  qed
qed

lemma run_phase:
  assumes "run c k n s = Inr (chunks, final)"
  shows "runs_of HandleExtractionTool chunks \<le> 1
       \<and> (n = HandleExtractionTool \<longrightarrow> runs_of HandleExtractionTool chunks = 1)
       \<and> get_phase final =
           (if runs_of HandleExtractionTool chunks = 1 then Some ''qa'' else get_phase s)"
  using assms
proof (induction k arbitrary: n s chunks)
  case 0
  then show ?case by (auto split: if_splits)
next
  case (Suc k)
  show ?case
  proof (cases "n = END")
    case True
    with Suc.prems show ?thesis by simp
  next
    case False
    from run_Suc_Inr [OF False Suc.prems]
    obtain u n' rest where u: "run_node c n s = Inr u"
      and n': "next_node n (apply_update s u) = Inr n'"
      and r: "run c k n' (apply_update s u) = Inr (rest, final)"
      and c: "chunks = [(n, u)] # rest"
      by blast
    let ?s = "apply_update s u"
    note ph = phase_step [OF u]
    show ?thesis
    proof (cases "n = HandleExtractionTool")
      case True
      with next_from [OF n'] have "n' = QaAgent \<or> n' = HandleSearchTool" by simp
      from run_qa [OF this r] ph True c show ?thesis by simp
    next
      case False
      with Suc.IH [OF r] ph c show ?thesis by simp
    qed
  qed
qed

lemma invoke_greeting:
  "invoke answering_stub greeting_state =
     Inr ([[(EntryPoint, \<lparr>messages = [], user_profile = None, phase = None\<rparr>)],
           [(CollectorAgent, \<lparr>messages = [AIMessage (Text []) [extract_call] None],
                              user_profile = Some None, phase = Some None\<rparr>)],
           [(HandleExtractionTool,
             \<lparr>messages = [ToolMessage (Text ''full'') ''call_0'' None],
              user_profile = Some (Some dana), phase = Some (Some ''qa'')\<rparr>)],
           [(QaAgent, \<lparr>messages = [AIMessage (Text ''Here is what I found.'') [] None],
                       user_profile = Some (Some dana), phase = Some (Some ''qa'')\<rparr>)]],
          \<lparr>messages = [HumanMessage (Text ''Hi, I am Dana Cohen'') None,
                       AIMessage (Text []) [extract_call] None,
                       ToolMessage (Text ''full'') ''call_0'' None,
                       AIMessage (Text ''Here is what I found.'') [] None],
           user_profile = Some (Some dana), phase = Some (Some ''qa'')\<rparr>)"
  by (simp add: invoke_def recursion_limit_def eval_nat_numeral answering_stub_def
      greeting_state_def entry_point_def collector_agent_def qa_agent_def
      handle_extraction_tool_def parse_tool_result_def UserProfile_of_def str_field_def
      seven_fields_def dana_def apply_update_def
      add_messages_def merge_message_def route_from_entry_def route_after_qa_def
      route_after_collector_def conditional_edge_def
      last_message_def get_phase_def get_user_profile_def Let_def)

lemma invoke_qa:
  assumes "get_phase s = Some ''qa''" and "invoke c s = Inr (chunks, final)"
  shows "get_user_profile final = get_user_profile s
       \<and> get_phase final = Some ''qa''
       \<and> runs_of HandleExtractionTool chunks = 0
       \<and> runs_of CollectorAgent chunks = 0
       \<and> (\<exists>u. last chunks = [(QaAgent, u)] \<and> user_profile u = Some (get_user_profile s)
              \<and> phase u = Some (Some ''qa''))"
proof -
  have u: "run_node c EntryPoint s = Inr (entry_point s)" by simp
  have same: "apply_update s (entry_point s) = s" by (rule apply_update_entry)
  from assms(1) have n': "next_node EntryPoint (apply_update s (entry_point s)) = Inr QaAgent"
    by (simp add: same route_from_entry_def conditional_edge_def)
  have "recursion_limit = Suc 49" by (simp add: recursion_limit_def)
  with run_Suc [OF _ u n', of 49] assms(2)
  obtain rest where r: "run c 49 QaAgent s = Inr (rest, final)"
    and c: "chunks = [(EntryPoint, entry_point s)] # rest"
    by (auto simp: invoke_def same split: sum.splits)
  from run_qa [OF _ r] c assms(1) show ?thesis by auto
qed










lemma chat_qa_profile:
  assumes "req_phase request = ''qa''"
    and "chat (stream c) apology request = Inr response"
  shows "resp_user_profile response = req_user_profile request \<and> resp_phase response = ''qa''"
proof -
  let ?s = "chat_initial_state request"
  from assms(2) obtain chunks where st: "stream c ?s = Inr chunks"
    and ex: "\<exists>t. extract_response_from_workflow_result (last chunks)
       = (t, resp_user_profile response, resp_phase response)"
    by (auto simp: chat_def chat_body_def split: sum.splits if_splits prod.splits)
  from st obtain final where inv: "invoke c ?s = Inr (chunks, final)"
    by (auto simp: stream_def split: sum.splits)
  have ph: "get_phase ?s = Some ''qa''"
    using assms(1) by (simp add: get_phase_def chat_initial_state_def)
  have pr: "get_user_profile ?s = req_user_profile request"
    by (simp add: get_user_profile_def chat_initial_state_def)
  from invoke_qa [OF ph inv] pr
  obtain u where l: "last chunks = [(QaAgent, u)]"
    and p: "user_profile u = Some (req_user_profile request)"
    and q: "phase u = Some (Some ''qa'')"
    by auto
  have "\<exists>t. extract_response_from_workflow_result (last chunks)
      = (t, req_user_profile request, ''qa'')"
    by (cases "req_user_profile request")
       (simp_all add: l p q extract_response_from_workflow_result_def)
  with ex show ?thesis by auto
qed

text \<open>
  C6. The responder and the search handler leave profile and phase as they were (the
  search handler returns neither key). Hence a run that starts in phase \<^verbatim>\<open>"qa"\<close> ends with
  the profile it was given, without running the collector or the extraction handler, and
  the chat call returns the profile of the request.
\<close>

theorem qa_never_mutates_profile:
  "get_user_profile (apply_update s (qa_agent c s)) = get_user_profile s
   \<and> get_phase (apply_update s (qa_agent c s)) = get_phase s
   \<and> get_user_profile (apply_update s (handle_search_tool c s)) = get_user_profile s
   \<and> get_phase (apply_update s (handle_search_tool c s)) = get_phase s
   \<and> user_profile (handle_search_tool c s) = None
   \<and> phase (handle_search_tool c s) = None
   \<and> (\<forall>chunks final. get_phase s = Some ''qa'' \<and> invoke c s = Inr (chunks, final) \<longrightarrow>
        get_user_profile final = get_user_profile s
        \<and> get_phase final = Some ''qa''
        \<and> runs_of HandleExtractionTool chunks = 0
        \<and> runs_of CollectorAgent chunks = 0)
   \<and> (\<forall>response. req_phase request = ''qa''
          \<and> chat (stream c) apology request = Inr response \<longrightarrow>
        resp_user_profile response = req_user_profile request
        \<and> resp_phase response = ''qa'')"
proof -
  have a: "get_user_profile (apply_update s (qa_agent c s)) = get_user_profile s
      \<and> get_phase (apply_update s (qa_agent c s)) = get_phase s"
    using profile_step [of c QaAgent s] phase_step [of c QaAgent s] by simp
  have b: "get_user_profile (apply_update s (handle_search_tool c s)) = get_user_profile s
      \<and> get_phase (apply_update s (handle_search_tool c s)) = get_phase s"
    using profile_step [of c HandleSearchTool s] phase_step [of c HandleSearchTool s] by simp
  have d: "user_profile (handle_search_tool c s) = None \<and> phase (handle_search_tool c s) = None"
    by (simp add: handle_search_tool_def)
  have e: "\<forall>chunks final. get_phase s = Some ''qa'' \<and> invoke c s = Inr (chunks, final) \<longrightarrow>
        get_user_profile final = get_user_profile s
        \<and> get_phase final = Some ''qa''
        \<and> runs_of HandleExtractionTool chunks = 0
        \<and> runs_of CollectorAgent chunks = 0"
    using invoke_qa by blast
  have f: "\<forall>response. req_phase request = ''qa''
          \<and> chat (stream c) apology request = Inr response \<longrightarrow>
        resp_user_profile response = req_user_profile request
        \<and> resp_phase response = ''qa''"
    using chat_qa_profile by blast
  from a b d e f show ?thesis by blast
qed

theorem qa_never_mutates_profile_witness:
  "get_phase question_state = Some ''qa''
   \<and> get_user_profile question_state = Some dana
   \<and> (\<exists>chunks final. invoke answering_stub question_state = Inr (chunks, final)
        \<and> length chunks = 4
        \<and> get_user_profile final = Some dana
        \<and> get_phase final = Some ''qa'')"
proof -
  have a: "get_phase question_state = Some ''qa''"
    by (simp add: question_state_def get_phase_def)
  have b: "get_user_profile question_state = Some dana"
    by (simp add: question_state_def get_user_profile_def)
  from qa_never_mutates_profile [of question_state answering_stub first_request "[]"] a b
    invoke_question
  show ?thesis by auto
qed

section \<open>The confirmation flag\<close>

lemma run_last:
  assumes "run c k n s = Inr (chunks, final)" and "n \<noteq> END"
  shows "\<exists>m u. last chunks = [(m, u)] \<and> chunks \<noteq> []
           \<and> user_profile u = Some (get_user_profile final)
           \<and> phase u = Some (get_phase final)"
  using assms
proof (induction k arbitrary: n s chunks)
  case 0
  then show ?case by (auto split: if_splits)
next
  case (Suc k)
  from run_Suc_Inr [OF Suc.prems(2) Suc.prems(1)]
  obtain u n' rest where u: "run_node c n s = Inr u"
    and n': "next_node n (apply_update s u) = Inr n'"
    and r: "run c k n' (apply_update s u) = Inr (rest, final)"
    and c: "chunks = [(n, u)] # rest"
    by blast
  let ?s = "apply_update s u"
  show ?case
  proof (cases "n' = END")
    case True
    from True r have e: "rest = []" "final = ?s" by (simp_all add: run_END)
    from next_from [OF n'] True Suc.prems(2)
    have "n = CollectorAgent \<or> n = QaAgent" by (cases n) auto
    then have "user_profile u = Some (get_user_profile s) \<and> phase u = Some (get_phase s)"
      using u by (auto simp: collector_agent_def qa_agent_def Let_def)
    moreover have "get_user_profile ?s = get_user_profile s \<and> get_phase ?s = get_phase s"
      using \<open>n = CollectorAgent \<or> n = QaAgent\<close> profile_step [OF u] phase_step [OF u] by auto
    ultimately show ?thesis using c e by simp
  next
    case False
    from Suc.IH [OF r False] c show ?thesis by auto
  qed
qed

lemma runs_of_absent: "runs_of n chunks = 0 \<Longrightarrow> [(n, u)] \<notin> set chunks"
  by (force simp: runs_of_def filter_empty_conv)

lemma run_profile:
  assumes "run c k n s = Inr (chunks, final)"
  shows "(runs_of HandleExtractionTool chunks = 0 \<longrightarrow> get_user_profile final = get_user_profile s)
       \<and> (runs_of HandleExtractionTool chunks \<noteq> 0 \<longrightarrow>
            (\<exists>u. [(HandleExtractionTool, u)] \<in> set chunks))
       \<and> (\<forall>u. [(HandleExtractionTool, u)] \<in> set chunks \<longrightarrow>
            user_profile u = Some (get_user_profile final))"
  using assms
proof (induction k arbitrary: n s chunks)
  case 0
  then show ?case by (auto split: if_splits)
next
  case (Suc k)
  show ?case
  proof (cases "n = END")
    case True
    with Suc.prems show ?thesis by simp
  next
    case False
    from run_Suc_Inr [OF False Suc.prems]
    obtain u n' rest where u: "run_node c n s = Inr u"
      and n': "next_node n (apply_update s u) = Inr n'"
      and r: "run c k n' (apply_update s u) = Inr (rest, final)"
      and c: "chunks = [(n, u)] # rest"
      by blast
    let ?s = "apply_update s u"
    show ?thesis
    proof (cases "n = HandleExtractionTool")
      case True
      with next_from [OF n'] have "n' = QaAgent \<or> n' = HandleSearchTool" by simp
      from run_qa [OF this r] have "get_user_profile final = get_user_profile ?s"
        and "\<forall>v. [(HandleExtractionTool, v)] \<notin> set rest"
        by (simp_all add: runs_of_absent)
      moreover from True u have "user_profile u = Some (get_user_profile ?s)"
        by (auto simp: handle_extraction_tool_def Let_def apply_update_def get_user_profile_def)
      ultimately show ?thesis using c True by auto
    next
      case False
      from Suc.IH [OF r] profile_step [OF u False] c False show ?thesis by auto
    qed
  qed
qed

lemma chat_stream_flag:
  assumes "chat (stream c) apology request = Inr response"
  shows "requires_confirmation response \<longleftrightarrow>
           (req_user_profile request = None
            \<and> (\<exists>chunks final u p. invoke c (chat_initial_state request) = Inr (chunks, final)
                  \<and> [(HandleExtractionTool, u)] \<in> set chunks
                  \<and> user_profile u = Some (Some p)))"
proof -
  let ?s = "chat_initial_state request"
  from assms obtain chunks where st: "stream c ?s = Inr chunks"
    and ex: "\<exists>t. extract_response_from_workflow_result (last chunks)
       = (t, resp_user_profile response, resp_phase response)"
    and fl: "requires_confirmation response \<longleftrightarrow>
           (resp_user_profile response \<noteq> None \<and> resp_phase response = ''qa''
            \<and> req_user_profile request = None)"
    by (auto simp: chat_def chat_body_def split: sum.splits if_splits prod.splits)
  from st obtain final where inv: "invoke c ?s = Inr (chunks, final)"
    by (auto simp: stream_def split: sum.splits)
  then have r: "run c recursion_limit EntryPoint ?s = Inr (chunks, final)"
    by (simp add: invoke_def)
  from run_last [OF r] obtain m u where l: "last chunks = [(m, u)]"
    and p: "user_profile u = Some (get_user_profile final)"
    and q: "phase u = Some (get_phase final)"
    by auto
  have rp: "resp_user_profile response = get_user_profile final"
    using ex l p by (cases "get_user_profile final")
      (auto simp: extract_response_from_workflow_result_def)
  have init: "get_user_profile ?s = req_user_profile request"
    by (simp add: get_user_profile_def chat_initial_state_def)
  note prof = run_profile [OF r]
  note phs = run_phase [OF r]
  show ?thesis
  proof
    assume "requires_confirmation response"
    with fl rp have a: "get_user_profile final \<noteq> None" and b: "req_user_profile request = None"
      by simp_all
    with prof init have "runs_of HandleExtractionTool chunks \<noteq> 0" by auto
    with prof obtain uh where "[(HandleExtractionTool, uh)] \<in> set chunks"
      and "user_profile uh = Some (get_user_profile final)" by blast
    with a b inv show "req_user_profile request = None
            \<and> (\<exists>chunks final u p. invoke c ?s = Inr (chunks, final)
                  \<and> [(HandleExtractionTool, u)] \<in> set chunks
                  \<and> user_profile u = Some (Some p))"
      by auto
  next
    assume h: "req_user_profile request = None
            \<and> (\<exists>chunks final u p. invoke c ?s = Inr (chunks, final)
                  \<and> [(HandleExtractionTool, u)] \<in> set chunks
                  \<and> user_profile u = Some (Some p))"
    with inv obtain uh pp where in_c: "[(HandleExtractionTool, uh)] \<in> set chunks"
      and up: "user_profile uh = Some (Some pp)" by auto
    from in_c have ran: "runs_of HandleExtractionTool chunks \<noteq> 0"
      using runs_of_absent by blast
    with phs have fq: "get_phase final = Some ''qa''" by auto
    from prof in_c up have "get_user_profile final = Some pp" by auto
    moreover have "resp_phase response = ''qa''"
      using ex l q fq by (auto simp: extract_response_from_workflow_result_def)
    ultimately show "requires_confirmation response" using fl rp h by simp
  qed
qed

lemma first_request_turn:
  "chat (stream answering_stub) ''Please try again'' first_request =
     Inr \<lparr>resp_message = ''Here is what I found.'', resp_user_profile = Some dana,
          resp_phase = ''qa'', requires_confirmation = True\<rparr>"
  by (simp add: chat_def chat_body_def chat_initial_state_def first_request_def
      is_space_def is_space2_def is_space3_def
      stream_def invoke_def recursion_limit_def eval_nat_numeral answering_stub_def
      entry_point_def collector_agent_def qa_agent_def
      handle_extraction_tool_def parse_tool_result_def UserProfile_of_def str_field_def
      seven_fields_def dana_def apply_update_def
      add_messages_def merge_message_def route_from_entry_def route_after_qa_def
      route_after_collector_def conditional_edge_def
      last_message_def get_phase_def get_user_profile_def Let_def
      extract_response_from_workflow_result_def)

text \<open>
  C7. Whenever the stateless chat call returns a response, its confirmation flag is true
  exactly when the returned profile is not \<^verbatim>\<open>None\<close>, the returned phase is \<^verbatim>\<open>"qa"\<close> and the
  request carried no profile. With the graph as the stream, that is exactly when the
  request carried no profile and the extraction handler ran in this turn and parsed a
  profile.
\<close>

theorem requires_confirmation_iff:
  assumes "chat stream_fn apology request = Inr response"
  shows "(requires_confirmation response \<longleftrightarrow>
            (resp_user_profile response \<noteq> None \<and> resp_phase response = ''qa''
             \<and> req_user_profile request = None))
       \<and> (stream_fn = stream c \<longrightarrow>
            (requires_confirmation response \<longleftrightarrow>
               (req_user_profile request = None
                \<and> (\<exists>chunks final u p.
                      invoke c (chat_initial_state request) = Inr (chunks, final)
                      \<and> [(HandleExtractionTool, u)] \<in> set chunks
                      \<and> user_profile u = Some (Some p)))))"
proof -
  have a: "requires_confirmation response \<longleftrightarrow>
            (resp_user_profile response \<noteq> None \<and> resp_phase response = ''qa''
             \<and> req_user_profile request = None)"
    using assms
    by (auto simp: chat_def chat_body_def split: sum.splits if_splits prod.splits)
  have b: "stream_fn = stream c \<longrightarrow>
            (requires_confirmation response \<longleftrightarrow>
               (req_user_profile request = None
                \<and> (\<exists>chunks final u p.
                      invoke c (chat_initial_state request) = Inr (chunks, final)
                      \<and> [(HandleExtractionTool, u)] \<in> set chunks
                      \<and> user_profile u = Some (Some p))))"
    using assms chat_stream_flag by blast
  from a b show ?thesis by blast
qed

theorem requires_confirmation_iff_witness:
  "chat (stream answering_stub) ''Please try again'' first_request =
     Inr \<lparr>resp_message = ''Here is what I found.'', resp_user_profile = Some dana,
          resp_phase = ''qa'', requires_confirmation = True\<rparr>
   \<and> req_user_profile first_request = None
   \<and> (\<exists>chunks final u p.
         invoke answering_stub (chat_initial_state first_request) = Inr (chunks, final)
         \<and> [(HandleExtractionTool, u)] \<in> set chunks
         \<and> user_profile u = Some (Some p))"
  using requires_confirmation_iff [OF first_request_turn, of answering_stub] first_request_turn
  by (simp add: first_request_def)

section \<open>Phase across turns of a session\<close>

lemma phase_at_get_session:
  "phase_at store sid p \<Longrightarrow> phase_at (snd (get_session store now sid')) sid p"
  by (auto simp: phase_at_def get_session_def split: option.splits if_splits)

lemma phase_at_add_message:
  "phase_at store sid p \<Longrightarrow> phase_at (snd (add_message_to_session store now sid' m)) sid p"
  by (auto simp: phase_at_def add_message_to_session_def split: option.splits if_splits)

lemma phase_at_update_profile:
  "phase_at store sid p \<Longrightarrow> phase_at (snd (update_session_profile store now sid' q)) sid p"
  by (auto simp: phase_at_def update_session_profile_def split: option.splits if_splits)

lemma phase_at_update_phase:
  "phase_at (snd (update_session_phase store now sid ph)) sid ph"
  by (auto simp: phase_at_def update_session_phase_def split: option.splits)

lemma phase_at_get_langchain_messages:
  "phase_at store sid p \<Longrightarrow> phase_at (snd (get_langchain_messages store now sid')) sid p"
  using phase_at_get_session [of store sid p now sid']
  by (auto simp: get_langchain_messages_def split: prod.splits option.splits)

lemma live_phase:
  "phase_at store sid p \<Longrightarrow> current_phase session = p \<Longrightarrow>
   current_phase (live store sid session) = p"
  by (auto simp: live_def phase_at_def split: option.splits)

lemma stream_extract:
  assumes "stream c s = Inr chunks" and "get_phase s = Some ip" and "ip \<noteq> []"
  shows "chunks \<noteq> [] \<and> last chunks \<noteq> []
       \<and> (\<exists>t p. extract_response_from_workflow_result (last chunks)
              = (t, p, if runs_of HandleExtractionTool chunks = 1 then ''qa'' else ip))"
proof -
  from assms(1) obtain final where "invoke c s = Inr (chunks, final)"
    by (auto simp: stream_def split: sum.splits)
  then have r: "run c recursion_limit EntryPoint s = Inr (chunks, final)"
    by (simp add: invoke_def)
  from run_last [OF r] obtain m u where l: "last chunks = [(m, u)]" and ne: "chunks \<noteq> []"
    and q: "phase u = Some (get_phase final)"
    by auto
  from run_phase [OF r] assms(2)
  have "get_phase final
      = Some (if runs_of HandleExtractionTool chunks = 1 then ''qa'' else ip)"
    by simp
  with q assms(3)
  have "\<exists>t p. extract_response_from_workflow_result [(m, u)]
              = (t, p, if runs_of HandleExtractionTool chunks = 1 then ''qa'' else ip)"
    by (simp add: extract_response_from_workflow_result_def)
  with l ne show ?thesis by simp
qed

lemma commit_turn_phase:
  assumes "phase_at store2 sid p0" and "current_phase session1 = p0"
  shows "phase_at (snd (commit_turn apology now store2 sid session1 (t, p, wp))) sid
           (if wp \<noteq> [] \<and> wp \<noteq> p0 then wp else p0)"
proof -
  let ?store3 = "(case p of
                   None \<Rightarrow> store2
                 | Some q \<Rightarrow>
                     if Some q \<noteq> session_user_profile session1
                     then snd (update_session_profile store2 now sid q)
                     else store2)"
  let ?reply = "if t = [] then apology else t"
  let ?store4 = "(if wp \<noteq> [] \<and> wp \<noteq> p0
                 then snd (update_session_phase ?store3 now sid wp)
                 else ?store3)"
  let ?store5 = "snd (add_message_to_session ?store4 now sid
                   \<lparr>role = ''assistant'', cm_content = ?reply, timestamp = now\<rparr>)"
  let ?p = "if wp \<noteq> [] \<and> wp \<noteq> p0 then wp else p0"
  have q3: "phase_at ?store3 sid p0"
    using assms(1) by (auto simp: phase_at_update_profile split: option.splits)
  then have p3: "current_phase (live ?store3 sid session1) = p0"
    using assms(2) by (rule live_phase)
  have q4: "phase_at ?store4 sid ?p"
    using q3 phase_at_update_phase [of ?store3 now sid wp] by simp
  have q5: "phase_at ?store5 sid ?p" using q4 by (rule phase_at_add_message)
  have q6: "phase_at (snd (get_session ?store5 now sid)) sid ?p"
    using q5 by (rule phase_at_get_session)
  have "snd (commit_turn apology now store2 sid session1 (t, p, wp))
      = snd (get_session ?store5 now sid)"
    using p3 by (simp add: commit_turn_def Let_def split: prod.splits)
  with q6 show ?thesis by simp
qed

lemma stateful_turn_phase:
  assumes "phase_at store0 (session_id session0) (current_phase session0)"
    and "stateful_turn (stream c) apology now store0 session0 txt = (result, store')"
  shows "(\<forall>e. stream c (stateful_turn_state now store0 session0 txt) = Inl e \<longrightarrow>
            phase_at store' (session_id session0) (current_phase session0)
            \<and> (\<exists>f. result = Inl f))
       \<and> (\<forall>chunks. stream c (stateful_turn_state now store0 session0 txt) = Inr chunks \<longrightarrow>
            phase_at store' (session_id session0)
              (if runs_of HandleExtractionTool chunks = 1 then ''qa''
               else if current_phase session0 = [] then ''collection''
               else current_phase session0)
            \<and> (\<exists>r. result = Inr r))"
proof -
  let ?sid = "session_id session0"
  let ?p0 = "current_phase session0"
  let ?store1 = "snd (add_message_to_session store0 now ?sid
                          \<lparr>role = ''user'', cm_content = txt, timestamp = now\<rparr>)"
  let ?session1 = "live ?store1 ?sid session0"
  let ?store2 = "snd (get_langchain_messages ?store1 now ?sid)"
  let ?msgs = "fst (get_langchain_messages ?store1 now ?sid)"
  let ?s = "stateful_initial_state ?msgs ?session1"
  let ?ip = "if ?p0 = [] then ''collection'' else ?p0"
  have st: "stateful_turn_state now store0 session0 txt = ?s"
    by (simp add: stateful_turn_state_def Let_def split: prod.splits)
  have q1: "phase_at ?store1 ?sid ?p0" using assms(1) by (rule phase_at_add_message)
  have p1: "current_phase ?session1 = ?p0" using q1 by (rule live_phase) simp
  have q2: "phase_at ?store2 ?sid ?p0" using q1 by (rule phase_at_get_langchain_messages)
  have ph: "get_phase ?s = Some ?ip"
    using p1 by (simp add: get_phase_def stateful_initial_state_def)
  have ip: "?ip \<noteq> []" by simp
  have a: "\<forall>e. stream c ?s = Inl e \<longrightarrow> phase_at store' ?sid ?p0 \<and> (\<exists>f. result = Inl f)"
  proof (intro allI impI)
    fix e
    assume "stream c ?s = Inl e"
    with assms(2) q2 show "phase_at store' ?sid ?p0 \<and> (\<exists>f. result = Inl f)"
      by (auto simp: stateful_turn_def st Let_def split: prod.splits)
  qed
  have b: "\<forall>chunks. stream c ?s = Inr chunks \<longrightarrow>
            phase_at store' ?sid
              (if runs_of HandleExtractionTool chunks = 1 then ''qa'' else ?ip)
            \<and> (\<exists>r. result = Inr r)"
  proof (intro allI impI)
    fix chunks
    assume Inr: "stream c ?s = Inr chunks"
    let ?wp = "if runs_of HandleExtractionTool chunks = 1 then ''qa'' else ?ip"
    from stream_extract [OF Inr ph ip]
    obtain t p where ne: "chunks \<noteq> []" "last chunks \<noteq> []"
      and ex: "extract_response_from_workflow_result (last chunks) = (t, p, ?wp)"
      by blast
    have wp: "?wp \<noteq> []" by simp
    from commit_turn_phase [OF q2 p1, of apology now t p ?wp]
    have "phase_at (snd (commit_turn apology now ?store2 ?sid ?session1 (t, p, ?wp))) ?sid
           (if ?wp \<noteq> [] \<and> ?wp \<noteq> ?p0 then ?wp else ?p0)" .
    moreover have "(if ?wp \<noteq> [] \<and> ?wp \<noteq> ?p0 then ?wp else ?p0) = ?wp"
      using wp by (cases "?wp = ?p0") simp_all
    ultimately
    have "phase_at (snd (commit_turn apology now ?store2 ?sid ?session1
        (extract_response_from_workflow_result (last chunks)))) ?sid ?wp"
      by (simp only: ex)
    with assms(2) Inr ne show "phase_at store' ?sid ?wp \<and> (\<exists>r. result = Inr r)"
      by (auto simp: stateful_turn_def st Let_def split: prod.splits)
  qed
  from a b show ?thesis by (simp only: st)
qed

lemma stateful_chat_phase:
  assumes "sessions store sid = Some session" and "session_id session = sid"
    and "sid \<noteq> []" and "sreq_session_id request = Some sid"
    and "stateful_chat (stream c) apology welcome uuid now store request = (result, store')"
    and "sessions store' sid = Some x"
  shows "(current_phase x = current_phase session
          \<or> (current_phase session = [] \<and> current_phase x = ''collection'')
          \<or> (current_phase x = ''qa''
             \<and> (\<exists>chunks final.
                  invoke c (stateful_turn_state now store session (sreq_message request))
                    = Inr (chunks, final)
                  \<and> runs_of HandleExtractionTool chunks = 1)))
       \<and> (current_phase session = ''qa'' \<longrightarrow> current_phase x = ''qa'')
       \<and> (\<forall>response chunks final.
            result = Inr response
            \<and> invoke c (stateful_turn_state now store session (sreq_message request))
                = Inr (chunks, final)
            \<and> runs_of HandleExtractionTool chunks = 1 \<longrightarrow>
            current_phase x = ''qa'')"
proof -
  let ?S = "stateful_turn_state now store session (sreq_message request)"
  have q0: "phase_at store (session_id session) (current_phase session)"
    using assms(1,2) by (simp add: phase_at_def)
  obtain r where body: "stateful_chat_body (stream c) apology welcome uuid now store request
      = (r, store')" and res: "(\<exists>response. result = Inr response) \<longrightarrow> (\<exists>response. r = Inr response)"
    using assms(5) by (auto simp: stateful_chat_def split: prod.splits sum.splits)
  show ?thesis
  proof (cases "is_blank (sreq_message request)")
    case True
    with body have "store' = store" and "r = Inl EmptyStatefulMessage"
      by (simp_all add: stateful_chat_body_def)
    with assms(1,6) res show ?thesis by auto
  next
    case False
    show ?thesis
    proof (cases "now - last_activity session > session_timeout store")
      case True
      with assms(1) have "get_session store now sid
          = (None, store\<lparr>sessions := (sessions store)(sid := None)\<rparr>)"
        by (simp add: get_session_def)
      with body False assms(3,4) have "sessions store' sid = None"
        by (auto simp: stateful_chat_body_def)
      with assms(6) show ?thesis by simp
    next
      case notexp: False
      with assms(1) have g: "get_session store now sid = (Some session, store)"
        by (simp add: get_session_def)
      with body False assms(3,4)
      have turn: "stateful_turn (stream c) apology now store session (sreq_message request)
          = (r, store')"
        by (simp add: stateful_chat_body_def)
      note tp = stateful_turn_phase [OF q0 turn]
      show ?thesis
      proof (cases "stream c ?S")
        case (Inl e)
        with tp have "phase_at store' sid (current_phase session)" and "\<exists>f. r = Inl f"
          using assms(2) by auto
        with assms(6) res show ?thesis by (auto simp: phase_at_def)
      next
        case (Inr chunks)
        then obtain final where inv: "invoke c ?S = Inr (chunks, final)"
          by (auto simp: stream_def split: sum.splits)
        from tp Inr assms(2)
        have "phase_at store' sid
              (if runs_of HandleExtractionTool chunks = 1 then ''qa''
               else if current_phase session = [] then ''collection''
               else current_phase session)"
          by auto
        with assms(6)
        have px: "current_phase x =
              (if runs_of HandleExtractionTool chunks = 1 then ''qa''
               else if current_phase session = [] then ''collection''
               else current_phase session)"
          by (simp add: phase_at_def)
        show ?thesis
        proof (cases "runs_of HandleExtractionTool chunks = 1")
          case True
          with px inv show ?thesis by auto
        next
          case False
          with px inv show ?thesis by auto
        qed
      qed
    qed
  qed
qed

lemma dental_turn:
  "stateful_chat (stream answering_stub) ''Please try again'' ''Welcome'' ''s2'' 1000 qa_store
     dental_request =
   (Inr \<lparr>sresp_message = ''Here is what I found.'', sresp_session_id = ''s1'',
         sresp_user_profile = Some dana, sresp_phase = ''qa'',
         sresp_requires_confirmation = False\<rparr>,
    qa_store\<lparr>sessions := [''s1'' \<mapsto>
      qa_session\<lparr>conversation_history :=
          [\<lparr>role = ''user'', cm_content = ''What does my plan cover for dental?'',
            timestamp = 1000\<rparr>,
           \<lparr>role = ''assistant'', cm_content = ''Here is what I found.'', timestamp = 1000\<rparr>],
        last_activity := 1000\<rparr>]\<rparr>)"
  by (simp add: stateful_chat_def stateful_chat_body_def stateful_turn_def commit_turn_def
      stateful_turn_state_def
      stateful_initial_state_def get_langchain_messages_def get_session_def
      add_message_to_session_def update_session_profile_def update_session_phase_def live_def
      qa_store_def qa_session_def dental_request_def session_store_def SessionStore_init_def
      timedelta_minutes_def is_space_def is_space2_def is_space3_def
      stream_def invoke_def recursion_limit_def eval_nat_numeral answering_stub_def
      entry_point_def qa_agent_def handle_search_tool_def apply_update_def
      add_messages_def merge_message_def route_from_entry_def route_after_qa_def
      conditional_edge_def
      last_message_def get_phase_def get_user_profile_def Let_def
      extract_response_from_workflow_result_def dana_def)

lemma hello_turn:
  "stateful_chat (stream answering_stub) ''Please try again'' ''Welcome'' ''s2'' 1000 new_store
     hello_request =
   (Inr \<lparr>sresp_message = ''Here is what I found.'', sresp_session_id = ''s3'',
         sresp_user_profile = Some dana, sresp_phase = ''qa'',
         sresp_requires_confirmation = False\<rparr>,
    new_store\<lparr>sessions := [''s3'' \<mapsto>
      new_session\<lparr>conversation_history :=
          [\<lparr>role = ''user'', cm_content = ''Hi, I am Dana Cohen'', timestamp = 1000\<rparr>,
           \<lparr>role = ''assistant'', cm_content = ''Here is what I found.'', timestamp = 1000\<rparr>],
        session_user_profile := Some dana, current_phase := ''qa'',
        last_activity := 1000\<rparr>]\<rparr>)"
  by (simp add: stateful_chat_def stateful_chat_body_def stateful_turn_def commit_turn_def
      stateful_turn_state_def
      stateful_initial_state_def get_langchain_messages_def get_session_def
      add_message_to_session_def update_session_profile_def update_session_phase_def live_def
      new_store_def new_session_def hello_request_def session_store_def SessionStore_init_def
      timedelta_minutes_def is_space_def is_space2_def is_space3_def
      stream_def invoke_def recursion_limit_def eval_nat_numeral answering_stub_def
      entry_point_def collector_agent_def qa_agent_def handle_search_tool_def
      handle_extraction_tool_def parse_tool_result_def UserProfile_of_def str_field_def
      seven_fields_def apply_update_def
      add_messages_def merge_message_def route_from_entry_def route_after_qa_def
      route_after_collector_def conditional_edge_def
      last_message_def get_phase_def get_user_profile_def Let_def
      extract_response_from_workflow_result_def dana_def)

text \<open>
  C1 (amended). The phase of a new session is \<^verbatim>\<open>"collection"\<close>. A node changes the phase
  only if it is the extraction handler, which sets \<^verbatim>\<open>"qa"\<close> whether or not a profile was
  parsed; a node returns \<^verbatim>\<open>"collection"\<close> only when that is the phase already (the agents
  write back the phase they read), and a phase \<^verbatim>\<open>"qa"\<close> stays. In a run the extraction
  handler runs at most once, and the final phase is \<^verbatim>\<open>"qa"\<close> if it ran and the initial phase
  otherwise. After a stateful chat call for a stored session, the session (if it is still
  stored) has the phase it had, or \<^verbatim>\<open>"qa"\<close> and then the extraction handler ran once in the
  run of this turn; an empty stored phase, which no session created by the store has, is
  read as \<^verbatim>\<open>"collection"\<close>. If the call returns a response and the extraction handler ran,
  the stored phase is \<^verbatim>\<open>"qa"\<close>. A stored session in phase \<^verbatim>\<open>"qa"\<close> is still in phase \<^verbatim>\<open>"qa"\<close>
  after the call, whatever the call returns.
\<close>

theorem phase_moves_only_in_extraction_handler:
  "(\<forall>u. run_node c n s = Inr u \<longrightarrow>
      get_phase (apply_update s u)
        = (if n = HandleExtractionTool then Some ''qa'' else get_phase s)
      \<and> (get_phase s = Some ''qa'' \<longrightarrow> get_phase (apply_update s u) = Some ''qa'')
      \<and> (phase u = Some (Some ''collection'') \<longrightarrow> get_phase s = Some ''collection''))
   \<and> (\<forall>chunks final. invoke c s = Inr (chunks, final) \<longrightarrow>
        runs_of HandleExtractionTool chunks \<le> 1
        \<and> get_phase final
            = (if runs_of HandleExtractionTool chunks = 1 then Some ''qa'' else get_phase s)
        \<and> (get_phase s = Some ''qa'' \<longrightarrow> get_phase final = Some ''qa''))
   \<and> current_phase (fst (create_session store uuid now)) = ''collection''
   \<and> (\<forall>session result store'.
        sessions store sid = Some session \<and> session_id session = sid
        \<and> current_phase session = ''qa'' \<and> sid \<noteq> []
        \<and> sreq_session_id request = Some sid
        \<and> stateful_chat (stream c) apology welcome uuid now store request = (result, store')
        \<longrightarrow> (\<forall>x. sessions store' sid = Some x \<longrightarrow> current_phase x = ''qa''))
   \<and> (\<forall>session result store' x.
        sessions store sid = Some session \<and> session_id session = sid \<and> sid \<noteq> []
        \<and> sreq_session_id request = Some sid
        \<and> stateful_chat (stream c) apology welcome uuid now store request = (result, store')
        \<and> sessions store' sid = Some x
        \<longrightarrow> (current_phase x = current_phase session
              \<or> (current_phase session = [] \<and> current_phase x = ''collection'')
              \<or> (current_phase x = ''qa''
                 \<and> (\<exists>chunks final.
                      invoke c (stateful_turn_state now store session (sreq_message request))
                        = Inr (chunks, final)
                      \<and> runs_of HandleExtractionTool chunks = 1)))
            \<and> (\<forall>response chunks final.
                  result = Inr response
                  \<and> invoke c (stateful_turn_state now store session (sreq_message request))
                      = Inr (chunks, final)
                  \<and> runs_of HandleExtractionTool chunks = 1 \<longrightarrow>
                  current_phase x = ''qa''))"
proof -
  have a: "\<forall>u. run_node c n s = Inr u \<longrightarrow>
      get_phase (apply_update s u)
        = (if n = HandleExtractionTool then Some ''qa'' else get_phase s)
      \<and> (get_phase s = Some ''qa'' \<longrightarrow> get_phase (apply_update s u) = Some ''qa'')
      \<and> (phase u = Some (Some ''collection'') \<longrightarrow> get_phase s = Some ''collection'')"
  proof (intro allI impI)
    fix u
    assume u: "run_node c n s = Inr u"
    have "phase u = Some (Some ''collection'') \<longrightarrow> get_phase s = Some ''collection''"
      using u
      by (cases n)
         (auto simp: entry_point_def collector_agent_def qa_agent_def
            handle_extraction_tool_def handle_search_tool_def Let_def)
    with phase_step [OF u]
    show "get_phase (apply_update s u)
        = (if n = HandleExtractionTool then Some ''qa'' else get_phase s)
      \<and> (get_phase s = Some ''qa'' \<longrightarrow> get_phase (apply_update s u) = Some ''qa'')
      \<and> (phase u = Some (Some ''collection'') \<longrightarrow> get_phase s = Some ''collection'')"
      by simp
  qed
  have d: "\<forall>chunks final. invoke c s = Inr (chunks, final) \<longrightarrow>
        runs_of HandleExtractionTool chunks \<le> 1
        \<and> get_phase final
            = (if runs_of HandleExtractionTool chunks = 1 then Some ''qa'' else get_phase s)
        \<and> (get_phase s = Some ''qa'' \<longrightarrow> get_phase final = Some ''qa'')"
    using run_phase [of c recursion_limit EntryPoint s] by (auto simp: invoke_def)
  have e: "current_phase (fst (create_session store uuid now)) = ''collection''"
    by (simp add: create_session_def ChatSession_new_def Let_def)
  have f: "\<forall>session result store'.
        sessions store sid = Some session \<and> session_id session = sid
        \<and> current_phase session = ''qa'' \<and> sid \<noteq> []
        \<and> sreq_session_id request = Some sid
        \<and> stateful_chat (stream c) apology welcome uuid now store request = (result, store')
        \<longrightarrow> (\<forall>x. sessions store' sid = Some x \<longrightarrow> current_phase x = ''qa'')"
  proof (intro allI impI)
    fix session result store' x
    assume h: "sessions store sid = Some session \<and> session_id session = sid
        \<and> current_phase session = ''qa'' \<and> sid \<noteq> []
        \<and> sreq_session_id request = Some sid
        \<and> stateful_chat (stream c) apology welcome uuid now store request = (result, store')"
      and x: "sessions store' sid = Some x"
    from h have h1: "sessions store sid = Some session" and h2: "session_id session = sid"
      and h3: "current_phase session = ''qa''" and h4: "sid \<noteq> []"
      and h5: "sreq_session_id request = Some sid"
      and h6: "stateful_chat (stream c) apology welcome uuid now store request
                 = (result, store')"
      by blast+
    from stateful_chat_phase [OF h1 h2 h4 h5 h6 x] h3 show "current_phase x = ''qa''" by blast
  qed
  have g: "\<forall>session result store' x.
        sessions store sid = Some session \<and> session_id session = sid \<and> sid \<noteq> []
        \<and> sreq_session_id request = Some sid
        \<and> stateful_chat (stream c) apology welcome uuid now store request = (result, store')
        \<and> sessions store' sid = Some x
        \<longrightarrow> (current_phase x = current_phase session
              \<or> (current_phase session = [] \<and> current_phase x = ''collection'')
              \<or> (current_phase x = ''qa''
                 \<and> (\<exists>chunks final.
                      invoke c (stateful_turn_state now store session (sreq_message request))
                        = Inr (chunks, final)
                      \<and> runs_of HandleExtractionTool chunks = 1)))
            \<and> (\<forall>response chunks final.
                  result = Inr response
                  \<and> invoke c (stateful_turn_state now store session (sreq_message request))
                      = Inr (chunks, final)
                  \<and> runs_of HandleExtractionTool chunks = 1 \<longrightarrow>
                  current_phase x = ''qa'')"
  proof (intro allI impI)
    fix session result store' x
    assume h: "sessions store sid = Some session \<and> session_id session = sid \<and> sid \<noteq> []
        \<and> sreq_session_id request = Some sid
        \<and> stateful_chat (stream c) apology welcome uuid now store request = (result, store')
        \<and> sessions store' sid = Some x"
    then have h1: "sessions store sid = Some session" and h2: "session_id session = sid"
      and h4: "sid \<noteq> []"
      and h5: "sreq_session_id request = Some sid"
      and h6: "stateful_chat (stream c) apology welcome uuid now store request
                 = (result, store')"
      and x: "sessions store' sid = Some x"
      by blast+
    note sp = stateful_chat_phase [OF h1 h2 h4 h5 h6 x]
    from sp have one: "current_phase x = current_phase session
              \<or> (current_phase session = [] \<and> current_phase x = ''collection'')
              \<or> (current_phase x = ''qa''
                 \<and> (\<exists>chunks final.
                      invoke c (stateful_turn_state now store session (sreq_message request))
                        = Inr (chunks, final)
                      \<and> runs_of HandleExtractionTool chunks = 1))"
      by (rule conjunct1)
    from sp have two: "\<forall>response chunks final.
                  result = Inr response
                  \<and> invoke c (stateful_turn_state now store session (sreq_message request))
                      = Inr (chunks, final)
                  \<and> runs_of HandleExtractionTool chunks = 1 \<longrightarrow>
                  current_phase x = ''qa''"
      by (elim conjE)
    from one two show "(current_phase x = current_phase session
              \<or> (current_phase session = [] \<and> current_phase x = ''collection'')
              \<or> (current_phase x = ''qa''
                 \<and> (\<exists>chunks final.
                      invoke c (stateful_turn_state now store session (sreq_message request))
                        = Inr (chunks, final)
                      \<and> runs_of HandleExtractionTool chunks = 1)))
            \<and> (\<forall>response chunks final.
                  result = Inr response
                  \<and> invoke c (stateful_turn_state now store session (sreq_message request))
                      = Inr (chunks, final)
                  \<and> runs_of HandleExtractionTool chunks = 1 \<longrightarrow>
                  current_phase x = ''qa'')"
      by (rule conjI)
  qed
  show ?thesis by (intro conjI; rule a d e f g)
qed

theorem phase_moves_only_in_extraction_handler_witness:
  "get_phase greeting_state = None
   \<and> (\<exists>chunks final. invoke answering_stub greeting_state = Inr (chunks, final)
        \<and> runs_of HandleExtractionTool chunks = 1
        \<and> get_phase final = Some ''qa'')
   \<and> sessions qa_store ''s1'' = Some qa_session
   \<and> current_phase qa_session = ''qa''
   \<and> (\<exists>result store' x.
        stateful_chat (stream answering_stub) ''Please try again'' ''Welcome'' ''s2'' 1000
          qa_store dental_request = (result, store')
        \<and> sessions store' ''s1'' = Some x \<and> current_phase x = ''qa'')
   \<and> sessions new_store ''s3'' = Some new_session
   \<and> current_phase new_session = ''collection''
   \<and> (\<exists>result store' x.
        stateful_chat (stream answering_stub) ''Please try again'' ''Welcome'' ''s2'' 1000
          new_store hello_request = (result, store')
        \<and> sessions store' ''s3'' = Some x \<and> current_phase x = ''qa'')
   \<and> (\<exists>chunks final.
        invoke answering_stub
          (stateful_turn_state 1000 new_store new_session (sreq_message hello_request))
          = Inr (chunks, final)
        \<and> runs_of HandleExtractionTool chunks = 1)"
proof -
  have a: "get_phase greeting_state = None" by (simp add: greeting_state_def get_phase_def)
  have s: "sessions qa_store ''s1'' = Some qa_session" by (simp add: qa_store_def)
  have i: "session_id qa_session = ''s1''" by (simp add: qa_session_def)
  have q: "current_phase qa_session = ''qa''" by (simp add: qa_session_def)
  have r: "sreq_session_id dental_request = Some ''s1''" by (simp add: dental_request_def)
  have ne: "''s1'' \<noteq> []" "''s3'' \<noteq> []" by simp_all
  obtain result store' where t: "stateful_chat (stream answering_stub) ''Please try again''
      ''Welcome'' ''s2'' 1000 qa_store dental_request = (result, store')"
    and x: "sessions store' ''s1'' \<noteq> None"
    using dental_turn by simp
  note inst = phase_moves_only_in_extraction_handler
    [of answering_stub EntryPoint greeting_state qa_store "''s2''" 1000 "''s1''" dental_request
      "''Please try again''" "''Welcome''"]
  from inst have run_part: "\<forall>chunks final.
        invoke answering_stub greeting_state = Inr (chunks, final) \<longrightarrow>
        runs_of HandleExtractionTool chunks \<le> 1
        \<and> get_phase final
            = (if runs_of HandleExtractionTool chunks = 1 then Some ''qa''
               else get_phase greeting_state)
        \<and> (get_phase greeting_state = Some ''qa'' \<longrightarrow> get_phase final = Some ''qa'')"
    by (elim conjE)
  with invoke_greeting a
  have one: "\<exists>chunks final. invoke answering_stub greeting_state = Inr (chunks, final)
        \<and> runs_of HandleExtractionTool chunks = 1
        \<and> get_phase final = Some ''qa''"
    by auto
  from inst have stay: "\<forall>session result store'.
        sessions qa_store ''s1'' = Some session \<and> session_id session = ''s1''
        \<and> current_phase session = ''qa'' \<and> ''s1'' \<noteq> []
        \<and> sreq_session_id dental_request = Some ''s1''
        \<and> stateful_chat (stream answering_stub) ''Please try again'' ''Welcome'' ''s2'' 1000
             qa_store dental_request = (result, store')
        \<longrightarrow> (\<forall>x. sessions store' ''s1'' = Some x \<longrightarrow> current_phase x = ''qa'')"
    by (elim conjE)
  with s i q r t ne(1)
  have "\<forall>x. sessions store' ''s1'' = Some x \<longrightarrow> current_phase x = ''qa''"
    by blast
  with x t have two: "\<exists>result store' x.
        stateful_chat (stream answering_stub) ''Please try again'' ''Welcome'' ''s2'' 1000
          qa_store dental_request = (result, store')
        \<and> sessions store' ''s1'' = Some x \<and> current_phase x = ''qa''"
    by auto
  have s3: "sessions new_store ''s3'' = Some new_session" by (simp add: new_store_def)
  have i3: "session_id new_session = ''s3''" by (simp add: new_session_def)
  have q3: "current_phase new_session = ''collection''" by (simp add: new_session_def)
  have r3: "sreq_session_id hello_request = Some ''s3''" by (simp add: hello_request_def)
  obtain result3 store3 x3 where t3: "stateful_chat (stream answering_stub)
      ''Please try again'' ''Welcome'' ''s2'' 1000 new_store hello_request = (result3, store3)"
    and x3: "sessions store3 ''s3'' = Some x3" and p3: "current_phase x3 = ''qa''"
    using hello_turn by simp
  note inst3 = phase_moves_only_in_extraction_handler
    [of answering_stub EntryPoint greeting_state new_store "''s2''" 1000 "''s3''" hello_request
      "''Please try again''" "''Welcome''"]
  from inst3 have moved: "\<forall>session result store' x.
        sessions new_store ''s3'' = Some session \<and> session_id session = ''s3'' \<and> ''s3'' \<noteq> []
        \<and> sreq_session_id hello_request = Some ''s3''
        \<and> stateful_chat (stream answering_stub) ''Please try again'' ''Welcome'' ''s2'' 1000
             new_store hello_request = (result, store')
        \<and> sessions store' ''s3'' = Some x
        \<longrightarrow> (current_phase x = current_phase session
              \<or> (current_phase session = [] \<and> current_phase x = ''collection'')
              \<or> (current_phase x = ''qa''
                 \<and> (\<exists>chunks final.
                      invoke answering_stub
                        (stateful_turn_state 1000 new_store session (sreq_message hello_request))
                        = Inr (chunks, final)
                      \<and> runs_of HandleExtractionTool chunks = 1)))
            \<and> (\<forall>response chunks final.
                  result = Inr response
                  \<and> invoke answering_stub
                      (stateful_turn_state 1000 new_store session (sreq_message hello_request))
                      = Inr (chunks, final)
                  \<and> runs_of HandleExtractionTool chunks = 1 \<longrightarrow>
                  current_phase x = ''qa'')"
    by (elim conjE)
  from moved s3 i3 ne(2) r3 t3 x3
  have "current_phase x3 = current_phase new_session
      \<or> (current_phase new_session = [] \<and> current_phase x3 = ''collection'')
      \<or> (current_phase x3 = ''qa''
          \<and> (\<exists>chunks final.
                invoke answering_stub
                  (stateful_turn_state 1000 new_store new_session (sreq_message hello_request))
                  = Inr (chunks, final)
                \<and> runs_of HandleExtractionTool chunks = 1))"
    by blast
  with p3 q3
  have four: "\<exists>chunks final.
        invoke answering_stub
          (stateful_turn_state 1000 new_store new_session (sreq_message hello_request))
          = Inr (chunks, final)
        \<and> runs_of HandleExtractionTool chunks = 1"
    by auto
  from t3 x3 p3 have three: "\<exists>result store' x.
        stateful_chat (stream answering_stub) ''Please try again'' ''Welcome'' ''s2'' 1000
          new_store hello_request = (result, store')
        \<and> sessions store' ''s3'' = Some x \<and> current_phase x = ''qa''"
    by blast
  show ?thesis by (intro conjI; rule a one s q two s3 q3 three four)
qed

text \<open>
  The claim as stated fails in two places. The extraction handler moves the phase to
  \<^verbatim>\<open>"qa"\<close> also when no profile could be parsed (here, from five of the seven fields). And
  a node does write the value \<^verbatim>\<open>"collection"\<close>: the collector returns the phase it read, which
  is \<^verbatim>\<open>"collection"\<close> in a state of that phase.
\<close>

theorem phase_advances_without_profile:
  "\<not> (\<forall>c s u. run_node c HandleExtractionTool s = Inr u
          \<and> get_phase s \<noteq> Some ''qa''
          \<and> get_phase (apply_update s u) = Some ''qa''
        \<longrightarrow> (\<exists>p. parse_tool_result c (extraction_tool_node c s) = Inr p))
   \<and> run_node stub HandleExtractionTool greeting_state
       = Inr \<lparr>messages = [ToolMessage (Text ''partial'') ''call_0'' None],
              user_profile = Some None, phase = Some (Some ''qa'')\<rparr>
   \<and> run_node stub CollectorAgent collection_state
       = Inr \<lparr>messages = [AIMessage (Text []) [extract_call] None],
              user_profile = Some None, phase = Some (Some ''collection'')\<rparr>
   \<and> \<not> (\<forall>c n s u. run_node c n s = Inr u \<longrightarrow> phase u \<noteq> Some (Some ''collection''))"
proof -
  let ?u = "\<lparr>messages = [ToolMessage (Text ''partial'') ''call_0'' None],
             user_profile = Some None, phase = Some (Some ''qa'')\<rparr>"
  have a: "run_node stub HandleExtractionTool greeting_state = Inr ?u"
    using stub_parse by (simp add: handle_extraction_tool_def Let_def) (simp add: stub_def)
  have b: "get_phase greeting_state \<noteq> Some ''qa''"
    by (simp add: greeting_state_def get_phase_def)
  have c: "get_phase (apply_update greeting_state ?u) = Some ''qa''"
    by (simp add: apply_update_def get_phase_def)
  have one: "\<not> (\<forall>c s u. run_node c HandleExtractionTool s = Inr u
          \<and> get_phase s \<noteq> Some ''qa''
          \<and> get_phase (apply_update s u) = Some ''qa''
        \<longrightarrow> (\<exists>p. parse_tool_result c (extraction_tool_node c s) = Inr p))"
  proof
    assume h: "\<forall>c s u. run_node c HandleExtractionTool s = Inr u
          \<and> get_phase s \<noteq> Some ''qa''
          \<and> get_phase (apply_update s u) = Some ''qa''
        \<longrightarrow> (\<exists>p. parse_tool_result c (extraction_tool_node c s) = Inr p)"
    from h a b c
    have "\<exists>p. parse_tool_result stub (extraction_tool_node stub greeting_state) = Inr p"
      by blast
    with stub_parse show False by simp
  qed
  have d: "run_node stub CollectorAgent collection_state
       = Inr \<lparr>messages = [AIMessage (Text []) [extract_call] None],
              user_profile = Some None, phase = Some (Some ''collection'')\<rparr>"
    by (simp add: collector_agent_def stub_def collection_state_def get_phase_def
        get_user_profile_def Let_def)
  have two: "\<not> (\<forall>c n s u. run_node c n s = Inr u \<longrightarrow> phase u \<noteq> Some (Some ''collection''))"
  proof
    assume "\<forall>c n s u. run_node c n s = Inr u \<longrightarrow> phase u \<noteq> Some (Some ''collection'')"
    with d have "phase \<lparr>messages = [AIMessage (Text []) [extract_call] None],
              user_profile = Some None, phase = Some (Some ''collection'')\<rparr>
          \<noteq> Some (Some ''collection'')"
      by blast
    then show False by simp
  qed
  show ?thesis by (intro conjI; rule one a d two)
qed

end
